theory Spec2Isabelle
  imports Main "HOL-Library.Sublist" "HOL-Library.AList"
begin

section \<open>Strings\<close>

text \<open>
  A JavaScript string is modelled as a \<^typ>\<open>string\<close>: each \<^typ>\<open>char\<close> stands for the
  code unit of the same number, U+0000 to U+00FF. Header names and values are byte strings
  on the wire, so for them this is the whole type; for every other string of the client
  (keys, content types, XML bodies) it is the strings whose code units stay below U+0100.
\<close>

definition startsWith :: "string \<Rightarrow> string \<Rightarrow> bool" where
  "startsWith s p = (take (length p) s = p)"

definition endsWith :: "string \<Rightarrow> string \<Rightarrow> bool" where
  "endsWith s p = (length p \<le> length s \<and> drop (length s - length p) s = p)"

text \<open>\<^verbatim>\<open>s.slice(0, -n)\<close>: the string without its last \<open>n\<close> code units.\<close>

definition sliceEnd :: "string \<Rightarrow> nat \<Rightarrow> string" where
  "sliceEnd s n = take (length s - n) s"

text \<open>\<^verbatim>\<open>xs.join(sep)\<close>.\<close>

fun join :: "string \<Rightarrow> string list \<Rightarrow> string" where
  "join sep [] = []"
| "join sep [x] = x"
| "join sep (x # y # ys) = x @ sep @ join sep (y # ys)"

text \<open>
  The first occurrence of a non-empty \<open>pat\<close> in a string: what stands before it and what
  follows it. \<^verbatim>\<open>s.replace(pat, rep)\<close> with a string pattern replaces that occurrence.
\<close>

fun splitAt :: "string \<Rightarrow> string \<Rightarrow> (string \<times> string) option" where
  "splitAt pat [] = None"
| "splitAt pat (c # cs) =
     (if startsWith (c # cs) pat then Some ([], drop (length pat) (c # cs))
      else map_option (\<lambda>(b, a). (c # b, a)) (splitAt pat cs))"

definition replaceFirst :: "string \<Rightarrow> string \<Rightarrow> string \<Rightarrow> string" where
  "replaceFirst pat rep s =
     (case splitAt pat s of None \<Rightarrow> s | Some (b, a) \<Rightarrow> b @ rep @ a)"

text \<open>
  \<^verbatim>\<open>String.prototype.toLowerCase\<close> on code units below U+0100: the letters A to Z and the
  Latin-1 capitals U+00C0 to U+00DE, the multiplication sign U+00D7 apart, move up by 32.
\<close>

definition lowerChar :: "char \<Rightarrow> char" where
  "lowerChar c =
     (let n = (of_char c :: nat)
      in if (65 \<le> n \<and> n \<le> 90) \<or> (192 \<le> n \<and> n \<le> 222 \<and> n \<noteq> 215)
         then char_of (n + 32) else c)"

definition toLowerCase :: "string \<Rightarrow> string" where
  "toLowerCase s = map lowerChar s"

text \<open>
  White space as \<^verbatim>\<open>trim\<close> and \<^verbatim>\<open>parseInt\<close> see it, below U+0100: tab, line feed,
  vertical tab, form feed, carriage return, space and the no-break space.
\<close>

definition isWhiteSpace :: "char \<Rightarrow> bool" where
  "isWhiteSpace c = ((of_char c :: nat) \<in> {9, 10, 11, 12, 13, 32, 160})"

definition trim :: "string \<Rightarrow> string" where
  "trim s = rev (dropWhile isWhiteSpace (rev (dropWhile isWhiteSpace s)))"

text \<open>A string is truthy when it is not empty; \<^verbatim>\<open>null\<close> and \<^verbatim>\<open>undefined\<close> are falsy.\<close>

fun truthy :: "string option \<Rightarrow> bool" where
  "truthy None = False"
| "truthy (Some s) = (s \<noteq> [])"

section \<open>Content-type patterns and metadata keys (bucket.ts)\<close>

text \<open>
  The callback of \<^verbatim>\<open>allowedContentTypes.some\<close> in \<^verbatim>\<open>presignedUploadUrl\<close>:
  \<^verbatim>\<open>
  if (pattern.endsWith('/*')) {
    const baseType = pattern.slice(0, -2)
    return contentType.startsWith(baseType + '/')
  }
  return contentType === pattern
  \<close>
\<close>

definition patternMatches :: "string \<Rightarrow> string \<Rightarrow> bool" where
  "patternMatches contentType pattern =
     (if endsWith pattern ''/*''
      then (let baseType = sliceEnd pattern 2 in startsWith contentType (baseType @ ''/''))
      else contentType = pattern)"

definition isAllowed :: "string list \<Rightarrow> string \<Rightarrow> bool" where
  "isAllowed allowedContentTypes contentType =
     list_ex (patternMatches contentType) allowedContentTypes"

text \<open>
  The guard around the check: it runs only when the list is supplied and not empty.
\<close>

definition contentTypeRejected :: "string list option \<Rightarrow> string \<Rightarrow> bool" where
  "contentTypeRejected allowedContentTypes contentType =
     (case allowedContentTypes of
        None \<Rightarrow> False
      | Some ps \<Rightarrow> length ps > 0 \<and> \<not> isAllowed ps contentType)"

text \<open>
  The header name of a metadata entry, in \<^verbatim>\<open>presignedUploadUrl\<close> and in \<^verbatim>\<open>uploadFile\<close>:
  \<^verbatim>\<open>metaKey.startsWith('x-amz-meta-') ? metaKey : `x-amz-meta-${metaKey}`\<close>.
\<close>

definition headerKey :: "string \<Rightarrow> string" where
  "headerKey metaKey =
     (if startsWith metaKey ''x-amz-meta-'' then metaKey else ''x-amz-meta-'' @ metaKey)"

section \<open>The signer, the network and what a call may throw\<close>

text \<open>
  The client throws \<^verbatim>\<open>new Error(message)\<close> and nothing else; the signer and \<^verbatim>\<open>fetch\<close>
  may reject with a value of their own.
\<close>

datatype thrown = Error string | Rejected string

text \<open>A \<^verbatim>\<open>Blob\<close>, as far as the client reads it: its size in bytes.\<close>

record blob =
  blob_size :: nat

text \<open>The arguments of \<^verbatim>\<open>awsClient.sign(url, { method, headers, body, aws })\<close>.\<close>

record sign_request =
  sq_url :: string
  sq_method :: string
  sq_headers :: "(string \<times> string) list option"
  sq_body :: "blob option"
  sq_signQuery :: bool
  sq_expires :: "int option"
  sq_allHeaders :: "bool option"

record signed_request =
  signed_url :: string
  signed_headers :: "(string \<times> string) list"

text \<open>The arguments of \<^verbatim>\<open>fetch(url, { method, headers, body })\<close>.\<close>

record fetch_request =
  fq_url :: string
  fq_method :: string
  fq_headers :: "(string \<times> string) list"
  fq_body :: "blob option"

text \<open>
  A \<^verbatim>\<open>Response\<close>: status, status text, the header entries as \<^verbatim>\<open>headers.entries()\<close>
  yields them, and what \<^verbatim>\<open>text()\<close> resolves to.
\<close>

record response =
  status :: nat
  statusText :: string
  resp_headers :: "(string \<times> string) list"
  resp_text :: "thrown + string"

text \<open>\<^verbatim>\<open>response.ok\<close>: the status is in the range 200 to 299.\<close>

definition ok :: "response \<Rightarrow> bool" where
  "ok r = (200 \<le> status r \<and> status r \<le> 299)"

text \<open>
  Every call of the signer and of \<^verbatim>\<open>fetch\<close> is recorded, in order; an operation returns
  the calls it made and either what it threw or its result.
\<close>

datatype event = Signed sign_request | Fetched fetch_request

type_synonym signer = "sign_request \<Rightarrow> thrown + signed_request"
type_synonym network = "fetch_request \<Rightarrow> thrown + response"

record R2Bucket =
  bucket_name :: string
  awsClient :: signer
  baseUrl :: string

text \<open>\<^verbatim>\<open>{ method, aws: { signQuery: false } }\<close>, the request every direct call signs.\<close>

definition headerSigned :: "string \<Rightarrow> string \<Rightarrow> sign_request" where
  "headerSigned url method =
     \<lparr>sq_url = url, sq_method = method, sq_headers = None, sq_body = None,
      sq_signQuery = False, sq_expires = None, sq_allHeaders = None\<rparr>"

text \<open>\<^verbatim>\<open>fetch(signedRequest.url, { method, headers: signedRequest.headers })\<close>.\<close>

definition fetchOf :: "signed_request \<Rightarrow> string \<Rightarrow> fetch_request" where
  "fetchOf signedRequest method =
     \<lparr>fq_url = signed_url signedRequest, fq_method = method,
      fq_headers = signed_headers signedRequest, fq_body = None\<rparr>"

text \<open>A status in a template string: its decimal digits.\<close>

fun digits10 :: "nat \<Rightarrow> string" where
  "digits10 n =
     (if n < 10 then [char_of (48 + n)]
      else digits10 (n div 10) @ [char_of (48 + n mod 10)])"

declare digits10.simps [simp del]

section \<open>Existence checks and deletion (bucket.ts)\<close>

text \<open>
  \<^verbatim>\<open>exists\<close> and \<^verbatim>\<open>objectExists\<close>: the whole body is inside \<^verbatim>\<open>try\<close>, and the
  \<^verbatim>\<open>catch\<close> returns \<^verbatim>\<open>false\<close>.
\<close>

definition headCheck :: "network \<Rightarrow> R2Bucket \<Rightarrow> string \<Rightarrow> event list \<times> (thrown + bool)" where
  "headCheck fetch b bucketUrl =
     (let rq = headerSigned bucketUrl ''HEAD''
      in case awsClient b rq of
           Inl e \<Rightarrow> ([Signed rq], Inr False)
         | Inr signedRequest \<Rightarrow>
             (let fq = fetchOf signedRequest ''HEAD''
              in case fetch fq of
                   Inl e \<Rightarrow> ([Signed rq, Fetched fq], Inr False)
                 | Inr response \<Rightarrow> ([Signed rq, Fetched fq], Inr (ok response))))"

definition exists :: "network \<Rightarrow> R2Bucket \<Rightarrow> event list \<times> (thrown + bool)" where
  "exists fetch b = headCheck fetch b (baseUrl b @ ''/'' @ bucket_name b @ ''/'')"

definition objectExists :: "network \<Rightarrow> R2Bucket \<Rightarrow> string \<Rightarrow> event list \<times> (thrown + bool)" where
  "objectExists fetch b key = headCheck fetch b (baseUrl b @ ''/'' @ bucket_name b @ ''/'' @ key)"

text \<open>
  \<^verbatim>\<open>deleteObject\<close>: nothing is caught; the guard is
  \<^verbatim>\<open>!response.ok && response.status !== 404\<close>.
\<close>

definition deleteObject :: "network \<Rightarrow> R2Bucket \<Rightarrow> string \<Rightarrow> event list \<times> (thrown + unit)" where
  "deleteObject fetch b key =
     (let bucketUrl = baseUrl b @ ''/'' @ bucket_name b @ ''/'' @ key;
          rq = headerSigned bucketUrl ''DELETE''
      in case awsClient b rq of
           Inl e \<Rightarrow> ([Signed rq], Inl e)
         | Inr signedRequest \<Rightarrow>
             (let fq = fetchOf signedRequest ''DELETE''
              in case fetch fq of
                   Inl e \<Rightarrow> ([Signed rq, Fetched fq], Inl e)
                 | Inr response \<Rightarrow>
                     if \<not> ok response \<and> status response \<noteq> 404
                     then ([Signed rq, Fetched fq],
                           Inl (Error (''Delete failed: '' @ digits10 (status response)
                                       @ '' '' @ statusText response)))
                     else ([Signed rq, Fetched fq], Inr ())))"

section \<open>Presigned URLs (bucket.ts)\<close>

record PresignedUploadUrlOptions =
  opt_key :: string
  opt_contentType :: string
  opt_metadata :: "(string \<times> string) list option"
  opt_expiresIn :: "int option"
  opt_maxFileSize :: "int option"
  opt_allowedContentTypes :: "string list option"

record PresignedDownloadUrlOptions =
  dl_expiresIn :: "int option"

record PresignedUrlResult =
  res_url :: string
  res_key :: string
  res_contentType :: string
  res_expiresIn :: int
  res_metadata :: "(string \<times> string) list option"
  res_maxFileSize :: "int option"
  res_allowedContentTypes :: "string list option"

text \<open>
  The headers both upload paths build: \<^verbatim>\<open>Content-Type\<close> first, then one assignment
  \<^verbatim>\<open>headers[headerKey] = String(metaValue)\<close> per entry of \<^verbatim>\<open>Object.entries(metadata)\<close>;
  an assignment to a name already present replaces its value in place.
\<close>

fun headerStep :: "(string \<times> string) list \<Rightarrow> string \<times> string \<Rightarrow> (string \<times> string) list" where
  "headerStep headers (metaKey, metaValue) = AList.update (headerKey metaKey) metaValue headers"

definition buildHeaders :: "string \<Rightarrow> (string \<times> string) list \<Rightarrow> (string \<times> string) list" where
  "buildHeaders contentType metadata =
     foldl headerStep [(''Content-Type'', contentType)] metadata"

definition notAllowedMessage :: "string \<Rightarrow> string list \<Rightarrow> string" where
  "notAllowedMessage contentType allowedContentTypes =
     ''Content type '' @ [CHR 0x27] @ contentType @ [CHR 0x27]
       @ '' is not allowed. Allowed types: '' @ join '', '' allowedContentTypes"

definition uploadSignRequest :: "R2Bucket \<Rightarrow> PresignedUploadUrlOptions \<Rightarrow> sign_request" where
  "uploadSignRequest b options =
     \<lparr>sq_url = baseUrl b @ ''/'' @ bucket_name b @ ''/'' @ opt_key options,
      sq_method = ''PUT'',
      sq_headers = Some (buildHeaders (opt_contentType options)
                           (case opt_metadata options of None \<Rightarrow> [] | Some m \<Rightarrow> m)),
      sq_body = None,
      sq_signQuery = True,
      sq_expires = Some (case opt_expiresIn options of None \<Rightarrow> 86400 | Some e \<Rightarrow> e),
      sq_allHeaders = Some True\<rparr>"

definition presignedUploadUrl ::
  "R2Bucket \<Rightarrow> PresignedUploadUrlOptions \<Rightarrow> event list \<times> (thrown + PresignedUrlResult)" where
  "presignedUploadUrl b options =
     (let expiresIn = (case opt_expiresIn options of None \<Rightarrow> 86400 | Some e \<Rightarrow> e)
      in if contentTypeRejected (opt_allowedContentTypes options) (opt_contentType options)
         then ([], Inl (Error (notAllowedMessage (opt_contentType options)
                                 (case opt_allowedContentTypes options of
                                    None \<Rightarrow> [] | Some ps \<Rightarrow> ps))))
         else (let rq = uploadSignRequest b options
               in case awsClient b rq of
                    Inl e \<Rightarrow> ([Signed rq], Inl e)
                  | Inr signedRequest \<Rightarrow>
                      ([Signed rq],
                       Inr \<lparr>res_url = signed_url signedRequest,
                            res_key = opt_key options,
                            res_contentType = opt_contentType options,
                            res_expiresIn = expiresIn,
                            res_metadata = opt_metadata options,
                            res_maxFileSize =
                              (case opt_maxFileSize options of
                                 None \<Rightarrow> None
                               | Some n \<Rightarrow> if n \<noteq> 0 then Some n else None),
                            res_allowedContentTypes = opt_allowedContentTypes options\<rparr>)))"

definition downloadSignRequest ::
  "R2Bucket \<Rightarrow> string \<Rightarrow> PresignedDownloadUrlOptions \<Rightarrow> sign_request" where
  "downloadSignRequest b key options =
     \<lparr>sq_url = baseUrl b @ ''/'' @ bucket_name b @ ''/'' @ key,
      sq_method = ''GET'', sq_headers = None, sq_body = None,
      sq_signQuery = True,
      sq_expires = Some (case dl_expiresIn options of None \<Rightarrow> 3600 | Some e \<Rightarrow> e),
      sq_allHeaders = None\<rparr>"

definition presignedDownloadUrl ::
  "R2Bucket \<Rightarrow> string \<Rightarrow> PresignedDownloadUrlOptions
     \<Rightarrow> event list \<times> (thrown + PresignedUrlResult)" where
  "presignedDownloadUrl b key options =
     (let expiresIn = (case dl_expiresIn options of None \<Rightarrow> 3600 | Some e \<Rightarrow> e);
          rq = downloadSignRequest b key options
      in case awsClient b rq of
           Inl e \<Rightarrow> ([Signed rq], Inl e)
         | Inr signedRequest \<Rightarrow>
             ([Signed rq],
              Inr \<lparr>res_url = signed_url signedRequest, res_key = key,
                   res_contentType = [], res_expiresIn = expiresIn,
                   res_metadata = None, res_maxFileSize = None,
                   res_allowedContentTypes = None\<rparr>))"

section \<open>Direct upload and retrieval (bucket.ts)\<close>

text \<open>
  The \<^verbatim>\<open>file\<close> argument of \<^verbatim>\<open>uploadFile\<close> and the \<^verbatim>\<open>Blob\<close> made of it: a blob is
  taken as it is, a buffer keeps its byte length, a string is encoded in UTF-8 (one byte
  for a code unit below U+0080, two for the others below U+0100).
\<close>

datatype file_arg = BlobFile blob | ArrayBufferFile nat | StringFile string

definition utf8Length :: "string \<Rightarrow> nat" where
  "utf8Length s = sum_list (map (\<lambda>c. if (of_char c :: nat) < 128 then 1 else 2) s)"

fun toBlob :: "file_arg \<Rightarrow> blob" where
  "toBlob (BlobFile bl) = bl"
| "toBlob (ArrayBufferFile byteLength) = \<lparr>blob_size = byteLength\<rparr>"
| "toBlob (StringFile s) = \<lparr>blob_size = utf8Length s\<rparr>"

text \<open>
  \<^verbatim>\<open>headers.get(name)\<close> compares names without regard to the case of the letters A to Z.
\<close>

definition byteLowerChar :: "char \<Rightarrow> char" where
  "byteLowerChar c =
     (let n = (of_char c :: nat) in if 65 \<le> n \<and> n \<le> 90 then char_of (n + 32) else c)"

fun headersGet :: "(string \<times> string) list \<Rightarrow> string \<Rightarrow> string option" where
  "headersGet [] name = None"
| "headersGet ((k, v) # hs) name =
     (if map byteLowerChar k = map byteLowerChar name then Some v else headersGet hs name)"

text \<open>\<^verbatim>\<open>x || undefined\<close> on a string that may be \<^verbatim>\<open>null\<close>.\<close>

definition orUndefined :: "string option \<Rightarrow> string option" where
  "orUndefined x = (if truthy x then x else None)"

text \<open>\<^verbatim>\<open>s.replace(/"/g, '')\<close>.\<close>

definition stripQuotes :: "string \<Rightarrow> string" where
  "stripQuotes s = filter (\<lambda>c. c \<noteq> CHR 0x22) s"

text \<open>
  The Numbers \<^verbatim>\<open>parseInt\<close> can return: \<^verbatim>\<open>NaN\<close>, the two infinities, negative zero,
  and \<open>Num n\<close>, the double whose value is the integer \<open>n\<close>.
\<close>

datatype number = NaN | Num int | NegZero | PosInfinity | NegInfinity

text \<open>
  The double nearest to a natural number, ties to the even significand: below \<open>2^53\<close>
  the number itself; from there on the number is cut to its 53 leading bits and rounded
  on the bits cut off; there is none from \<open>2^1024\<close> on, where the Number is infinite.
\<close>

fun bitLength :: "nat \<Rightarrow> nat" where
  "bitLength n = (if n = 0 then 0 else Suc (bitLength (n div 2)))"

declare bitLength.simps [simp del]

definition toDouble :: "nat \<Rightarrow> nat option" where
  "toDouble m =
     (if m < 2 ^ 53 then Some m
      else (let e = bitLength m - 53;
                q = m div 2 ^ e;
                r = m mod 2 ^ e;
                q' = (if 2 * r > 2 ^ e \<or> (2 * r = 2 ^ e \<and> odd q) then q + 1 else q);
                v = q' * 2 ^ e
            in if v < 2 ^ 1024 then Some v else None))"

text \<open>
  \<^verbatim>\<open>parseInt(s, 10)\<close> skips leading white space, reads one sign, then the longest run of
  decimal digits; it is \<^verbatim>\<open>NaN\<close> when that run is empty, a zero with the sign read when
  the digits denote zero, and otherwise the Number for the sign times the integer the
  digits denote. The digits are all read: the licence of an implementation to take the
  digits after the twentieth for zeros is not used.
\<close>

definition isDigit :: "char \<Rightarrow> bool" where
  "isDigit c = (48 \<le> (of_char c :: nat) \<and> (of_char c :: nat) \<le> 57)"

definition decimalValue :: "string \<Rightarrow> nat" where
  "decimalValue ds = foldl (\<lambda>acc c. 10 * acc + (of_char c - 48)) 0 ds"

definition parseInt10 :: "string \<Rightarrow> number" where
  "parseInt10 s =
     (let s1 = dropWhile isWhiteSpace s;
          negative = (case s1 of [] \<Rightarrow> False | c # _ \<Rightarrow> c = CHR ''-'');
          s2 = (case s1 of [] \<Rightarrow> []
                | c # cs \<Rightarrow> if c = CHR ''+'' \<or> c = CHR ''-'' then cs else c # cs);
          z = takeWhile isDigit s2;
          mathInt = decimalValue z
      in if z = [] then NaN
         else if mathInt = 0 then (if negative then NegZero else Num 0)
         else (case toDouble mathInt of
                 None \<Rightarrow> if negative then NegInfinity else PosInfinity
               | Some v \<Rightarrow> Num (if negative then - int v else int v)))"

text \<open>
  A \<^verbatim>\<open>Date\<close> is kept as the expression that made it: \<open>DateOf s\<close> is
  \<^verbatim>\<open>new Date(s)\<close>, an invalid date when \<open>s\<close> does not parse, and \<open>CallTime\<close> is
  \<^verbatim>\<open>new Date()\<close>, the time of the call.
\<close>

datatype date = DateOf string | CallTime

text \<open>
  \<^verbatim>\<open>metadata[metaKey] = headerValue\<close> on an object literal: the name \<^verbatim>\<open>__proto__\<close> is
  the accessor of \<^verbatim>\<open>Object.prototype\<close>, whose setter ignores a string, so that assignment
  creates no property; any other name is created or has its value replaced. The list is
  the object's own properties; it is read by name.
\<close>

definition objectSet :: "string \<Rightarrow> string \<Rightarrow> (string \<times> string) list \<Rightarrow> (string \<times> string) list" where
  "objectSet k v obj = (if k = ''__proto__'' then obj else AList.update k v obj)"

text \<open>
  The loop of \<^verbatim>\<open>getObject\<close> over \<^verbatim>\<open>response.headers.entries()\<close>: its body, and
  the loop from the empty object.
\<close>

fun metadataStep :: "(string \<times> string) list \<Rightarrow> string \<times> string \<Rightarrow> (string \<times> string) list" where
  "metadataStep metadata (headerName, headerValue) =
     (if startsWith (toLowerCase headerName) ''x-amz-meta-''
      then (let metaKey = replaceFirst ''x-amz-meta-'' [] (toLowerCase headerName)
            in objectSet metaKey headerValue metadata)
      else metadata)"

definition extractMetadata :: "(string \<times> string) list \<Rightarrow> (string \<times> string) list" where
  "extractMetadata entries = foldl metadataStep [] entries"

record R2Object =
  obj_key :: string
  obj_contentType :: "string option"
  obj_size :: number
  obj_lastModified :: date
  obj_etag :: "string option"
  obj_metadata :: "(string \<times> string) list option"
  obj_body :: response

text \<open>The descriptor \<^verbatim>\<open>getObject\<close> returns for a response that is \<^verbatim>\<open>ok\<close>.\<close>

definition describeObject :: "string \<Rightarrow> response \<Rightarrow> R2Object" where
  "describeObject key response =
     (let contentType = orUndefined (headersGet (resp_headers response) ''Content-Type'');
          contentLength = headersGet (resp_headers response) ''Content-Length'';
          lastModified = headersGet (resp_headers response) ''Last-Modified'';
          etag = orUndefined (map_option stripQuotes (headersGet (resp_headers response) ''ETag''));
          metadata = extractMetadata (resp_headers response)
      in \<lparr>obj_key = key,
          obj_contentType = contentType,
          obj_size = (if truthy contentLength then parseInt10 (the contentLength) else Num 0),
          obj_lastModified = (if truthy lastModified then DateOf (the lastModified) else CallTime),
          obj_etag = etag,
          obj_metadata = (if length metadata > 0 then Some metadata else None),
          obj_body = response\<rparr>)"

definition getObject :: "network \<Rightarrow> R2Bucket \<Rightarrow> string \<Rightarrow> event list \<times> (thrown + R2Object)" where
  "getObject fetch b key =
     (let bucketUrl = baseUrl b @ ''/'' @ bucket_name b @ ''/'' @ key;
          rq = headerSigned bucketUrl ''GET''
      in case awsClient b rq of
           Inl e \<Rightarrow> ([Signed rq], Inl e)
         | Inr signedRequest \<Rightarrow>
             (let fq = fetchOf signedRequest ''GET''
              in case fetch fq of
                   Inl e \<Rightarrow> ([Signed rq, Fetched fq], Inl e)
                 | Inr response \<Rightarrow>
                     if \<not> ok response
                     then ([Signed rq, Fetched fq],
                           Inl (Error (''Get object failed: '' @ digits10 (status response)
                                       @ '' '' @ statusText response)))
                     else ([Signed rq, Fetched fq], Inr (describeObject key response))))"

record UploadFileOptions =
  up_contentType :: string
  up_metadata :: "(string \<times> string) list option"

record UploadResult =
  ur_key :: string
  ur_contentType :: string
  ur_fileSize :: nat
  ur_etag :: "string option"

definition uploadFileSignRequest ::
  "R2Bucket \<Rightarrow> string \<Rightarrow> file_arg \<Rightarrow> UploadFileOptions \<Rightarrow> sign_request" where
  "uploadFileSignRequest b key file options =
     \<lparr>sq_url = baseUrl b @ ''/'' @ bucket_name b @ ''/'' @ key,
      sq_method = ''PUT'',
      sq_headers = Some (buildHeaders (up_contentType options)
                           (case up_metadata options of None \<Rightarrow> [] | Some m \<Rightarrow> m)),
      sq_body = Some (toBlob file),
      sq_signQuery = False, sq_expires = None, sq_allHeaders = Some True\<rparr>"

definition uploadFile ::
  "network \<Rightarrow> R2Bucket \<Rightarrow> string \<Rightarrow> file_arg \<Rightarrow> UploadFileOptions
     \<Rightarrow> event list \<times> (thrown + UploadResult)" where
  "uploadFile fetch b key file options =
     (let rq = uploadFileSignRequest b key file options
      in case awsClient b rq of
           Inl e \<Rightarrow> ([Signed rq], Inl e)
         | Inr signedRequest \<Rightarrow>
             (let fq = \<lparr>fq_url = signed_url signedRequest, fq_method = ''PUT'',
                        fq_headers = signed_headers signedRequest,
                        fq_body = Some (toBlob file)\<rparr>
              in case fetch fq of
                   Inl e \<Rightarrow> ([Signed rq, Fetched fq], Inl e)
                 | Inr response \<Rightarrow>
                     if \<not> ok response
                     then ([Signed rq, Fetched fq],
                           Inl (Error (''Upload failed: '' @ digits10 (status response)
                                       @ '' '' @ statusText response)))
                     else ([Signed rq, Fetched fq],
                           Inr \<lparr>ur_key = key, ur_contentType = up_contentType options,
                                ur_fileSize = blob_size (toBlob file),
                                ur_etag = orUndefined (map_option stripQuotes
                                            (headersGet (resp_headers response) ''ETag''))\<rparr>)))"

section \<open>Listing buckets (client.ts)\<close>

record R2Client =
  client_awsClient :: signer
  client_baseUrl :: string

record BucketInfo =
  bi_name :: string
  bi_creationDate :: "date option"
  bi_location :: string

text \<open>
  \<^verbatim>\<open>xml.match(new RegExp(`<${tag}>([^<]*)</${tag}>`))\<close> for a tag name of letters: the
  first position where the opening tag stands and where, after the run of characters other
  than \<open><\<close> that follows it, the closing tag stands; the capture is that run.
\<close>

fun xmlTagMatch :: "string \<Rightarrow> string \<Rightarrow> string option" where
  "xmlTagMatch tag [] = None"
| "xmlTagMatch tag (c # cs) =
     (let opening = ''<'' @ tag @ ''>''; closing = ''</'' @ tag @ ''>'';
          inner = drop (length opening) (c # cs)
      in if startsWith (c # cs) opening
            \<and> startsWith (dropWhile (\<lambda>x. x \<noteq> CHR ''<'') inner) closing
         then Some (takeWhile (\<lambda>x. x \<noteq> CHR ''<'') inner)
         else xmlTagMatch tag cs)"

definition parseXmlTag :: "string \<Rightarrow> string \<Rightarrow> string option" where
  "parseXmlTag xml tag = map_option trim (xmlTagMatch tag xml)"

lemma splitAt_length:
  "splitAt pat s = Some (b, a) \<Longrightarrow> length a + length pat \<le> length s"
proof (induction s arbitrary: b)
  case Nil
  then show ?case by simp
next
  case (Cons c cs)
  show ?case
  proof (cases "startsWith (c # cs) pat")
    case True
    then have "length (take (length pat) (c # cs)) = length pat"
      unfolding startsWith_def by (rule arg_cong)
    then have "length pat \<le> length (c # cs)"
      by simp
    with True Cons.prems show ?thesis by auto
  next
    case False
    with Cons.prems obtain b' where "splitAt pat cs = Some (b', a)"
      by auto
    from Cons.IH [OF this] show ?thesis by simp
  qed
qed

text \<open>
  \<^verbatim>\<open>xml.matchAll(/<Bucket>([\s\S]*?)<\/Bucket>/g)\<close>, the captures in order: from the
  first \<^verbatim>\<open><Bucket>\<close> to the nearest \<^verbatim>\<open></Bucket>\<close> after it, then on from the end of
  that match.
\<close>

function bucketMatches :: "string \<Rightarrow> string list" where
  "bucketMatches xml =
     (case splitAt ''<Bucket>'' xml of
        None \<Rightarrow> []
      | Some (before, rest) \<Rightarrow>
          (case splitAt ''</Bucket>'' rest of
             None \<Rightarrow> []
           | Some (bucketXml, after) \<Rightarrow> bucketXml # bucketMatches after))"
  by pat_completeness auto
termination
proof (relation "measure length")
  fix xml x2 before rest x2a bucketXml after
  assume "splitAt ''<Bucket>'' xml = Some x2" "(before, rest) = x2"
    "splitAt ''</Bucket>'' rest = Some x2a" "(bucketXml, after) = x2a"
  then have "length rest + length ''<Bucket>'' \<le> length xml"
    and "length after + length ''</Bucket>'' \<le> length rest"
    using splitAt_length by metis+
  then show "(after, xml) \<in> measure length" by simp
qed simp

declare bucketMatches.simps [simp del]

text \<open>The body of the loop of \<^verbatim>\<open>parseBucketsXml\<close>: what one capture pushes.\<close>

definition bucketOf :: "string \<Rightarrow> BucketInfo list" where
  "bucketOf bucketXml =
     (let name = parseXmlTag bucketXml ''Name'';
          creationDateStr = parseXmlTag bucketXml ''CreationDate''
      in if truthy name
         then [\<lparr>bi_name = the name,
                 bi_creationDate =
                   (if truthy creationDateStr then Some (DateOf (the creationDateStr)) else None),
                 bi_location = ''auto''\<rparr>]
         else [])"

definition parseBucketsXml :: "string \<Rightarrow> BucketInfo list" where
  "parseBucketsXml xml = concat (map bucketOf (bucketMatches xml))"

definition listBuckets :: "network \<Rightarrow> R2Client \<Rightarrow> event list \<times> (thrown + BucketInfo list)" where
  "listBuckets fetch c =
     (let rq = headerSigned (client_baseUrl c) ''GET''
      in case client_awsClient c rq of
           Inl e \<Rightarrow> ([Signed rq], Inl e)
         | Inr signedRequest \<Rightarrow>
             (let fq = fetchOf signedRequest ''GET''
              in case fetch fq of
                   Inl e \<Rightarrow> ([Signed rq, Fetched fq], Inl e)
                 | Inr response \<Rightarrow>
                     if \<not> ok response
                     then ([Signed rq, Fetched fq],
                           Inl (Error (''List buckets failed: '' @ digits10 (status response)
                                       @ '' '' @ statusText response)))
                     else (case resp_text response of
                             Inl e \<Rightarrow> ([Signed rq, Fetched fq], Inl e)
                           | Inr xml \<Rightarrow> ([Signed rq, Fetched fq], Inr (parseBucketsXml xml)))))"

text \<open>
  A block of a ListBuckets body as the service writes it: a name and a creation date, as
  text between their tags.
\<close>

definition bucketBlock :: "string \<Rightarrow> string \<Rightarrow> string" where
  "bucketBlock name creationDate =
     ''<Bucket><Name>'' @ name @ ''</Name><CreationDate>'' @ creationDate
       @ ''</CreationDate></Bucket>''"

text \<open>
  The signer a client is constructed with is an \<^verbatim>\<open>AwsClient\<close> of the package aws4fetch
  for the service \<^verbatim>\<open>s3\<close>; it is not code of this repository. Of the \<^verbatim>\<open>aws\<close> options
  the client passes, it reads \<^verbatim>\<open>signQuery\<close> and \<^verbatim>\<open>allHeaders\<close>; \<^verbatim>\<open>expires\<close> is not an
  option of it, which is why the client passes it under a type cast. On a query-signed URL with no
  \<^verbatim>\<open>X-Amz-Expires\<close> parameter of its own it sets that parameter to 86400.
  \<open>stampExpiry\<close> is that step on a URL without a query; the other parameters of the
  signature are left out.
\<close>

definition stampExpiry :: signer where
  "stampExpiry rq =
     Inr \<lparr>signed_url =
            (if sq_signQuery rq then sq_url rq @ ''?X-Amz-Expires=86400'' else sq_url rq),
          signed_headers = (case sq_headers rq of None \<Rightarrow> [] | Some hs \<Rightarrow> hs)\<rparr>"

text \<open>
  The service's part of a round trip, seen from the client: the response to a GET returns
  every metadata header that was sent with the PUT, under a name equal up to letter case
  and with its value, and returns no other header under the metadata prefix.
\<close>

definition echoes :: "(string \<times> string) list \<Rightarrow> (string \<times> string) list \<Rightarrow> bool" where
  "echoes sent received \<longleftrightarrow>
     (\<forall>(n, x) \<in> set sent. startsWith n ''x-amz-meta-'' \<longrightarrow>
        (\<exists>(n', x') \<in> set received. toLowerCase n' = toLowerCase n \<and> x' = x))
     \<and> (\<forall>(n', x') \<in> set received. startsWith (toLowerCase n') ''x-amz-meta-'' \<longrightarrow>
        (\<exists>(n, x) \<in> set sent. toLowerCase n' = toLowerCase n \<and> x' = x))"

section \<open>Properties\<close>

lemma startsWith_prefix: "startsWith s p \<longleftrightarrow> prefix p s"
  unfolding startsWith_def prefix_def
  by (metis append_eq_conv_conj append_take_drop_id)

lemma endsWith_append: "endsWith p q \<longleftrightarrow> (\<exists>b. p = b @ q)"
proof
  assume "endsWith p q"
  then have "p = take (length p - length q) p @ q"
    unfolding endsWith_def by (metis append_take_drop_id)
  then show "\<exists>b. p = b @ q" ..
next
  assume "\<exists>b. p = b @ q"
  then show "endsWith p q"
    unfolding endsWith_def by auto
qed

lemma patternMatches_wildcard:
  "patternMatches contentType (b @ ''/*'') \<longleftrightarrow> prefix (b @ ''/'') contentType"
proof -
  have "endsWith (b @ ''/*'') ''/*''"
    by (simp add: endsWith_def)
  moreover have "sliceEnd (b @ ''/*'') 2 = b"
    by (simp add: sliceEnd_def)
  ultimately show ?thesis
    by (simp add: patternMatches_def startsWith_prefix)
qed

lemma patternMatches_exact:
  "\<not> (\<exists>b. pattern = b @ ''/*'') \<Longrightarrow> patternMatches contentType pattern \<longleftrightarrow> contentType = pattern"
  by (simp add: patternMatches_def endsWith_append)

text \<open>
  C1. A pattern ending in \<open>/*\<close> matches exactly the content types that start with the
  pattern's text up to and including the \<open>/\<close>; any other pattern matches exactly the
  content type equal to it; the check over a list succeeds exactly when one of its
  patterns matches; and \<^verbatim>\<open>presignedUploadUrl\<close> rejects a content type exactly when a
  list is supplied, is not empty, and that check fails.
\<close>

theorem contentType_matching:
  "(patternMatches contentType (b @ ''/*'') \<longleftrightarrow> prefix (b @ ''/'') contentType)
   \<and> ((\<nexists>b'. pattern = b' @ ''/*'') \<longrightarrow>
        (patternMatches contentType pattern \<longleftrightarrow> contentType = pattern))
   \<and> (isAllowed patterns contentType \<longleftrightarrow> (\<exists>p \<in> set patterns. patternMatches contentType p))
   \<and> (contentTypeRejected allowed contentType \<longleftrightarrow>
        (\<exists>ps. allowed = Some ps \<and> ps \<noteq> [] \<and> \<not> isAllowed ps contentType))"
proof -
  have "contentTypeRejected allowed contentType \<longleftrightarrow>
        (\<exists>ps. allowed = Some ps \<and> ps \<noteq> [] \<and> \<not> isAllowed ps contentType)"
    by (cases allowed) (simp_all add: contentTypeRejected_def)
  then show ?thesis
    using patternMatches_wildcard patternMatches_exact
    by (simp add: isAllowed_def list_ex_iff)
qed

theorem contentType_matching_witness:
  "patternMatches ''image/png'' ''image/*''
   \<and> \<not> patternMatches ''application/pdf'' ''image/*''
   \<and> (\<nexists>b'. ''image/png'' = b' @ ''/*'')
   \<and> patternMatches ''image/png'' ''image/png''
   \<and> \<not> patternMatches ''image/png'' ''image/jpeg''
   \<and> isAllowed [''text/plain'', ''image/*''] ''image/png''"
proof -
  have ne: "\<nexists>b'. ''image/png'' = b' @ ''/*''"
    by (simp add: endsWith_append [symmetric] endsWith_def)
  have w: "prefix (''image'' @ ''/'') ''image/png''" "\<not> prefix (''image'' @ ''/'') ''application/pdf''"
    by simp_all
  show ?thesis
    using ne w
      contentType_matching [of "''image/png''" "''image''" "''image/png''" "[''text/plain'', ''image/*'']"]
      contentType_matching [of "''application/pdf''" "''image''" "''image/png''" "[]"]
      contentType_matching [of "''image/png''" "''image''" "''image/jpeg''" "[]"]
    by (simp add: endsWith_append [symmetric] endsWith_def)
qed

text \<open>
  C3. Normalising a metadata key is idempotent: normalising the header name again gives
  the same header name.
\<close>

theorem headerKey_idempotent: "headerKey (headerKey metaKey) = headerKey metaKey"
  by (simp add: headerKey_def startsWith_def)

subsection \<open>Rejected content types\<close>

lemma contentTypeRejected_iff:
  "contentTypeRejected (Some ps) contentType
     \<longleftrightarrow> ps \<noteq> [] \<and> (\<forall>p \<in> set ps. \<not> patternMatches contentType p)"
  by (simp add: contentTypeRejected_def isAllowed_def list_ex_iff)

text \<open>
  C2. With a non-empty list of allowed patterns none of which matches the content type,
  \<^verbatim>\<open>presignedUploadUrl\<close> throws an error whose message quotes the content type and lists
  the allowed patterns, and it has called neither the signer nor the network.
\<close>

theorem presignedUploadUrl_rejects:
  assumes "opt_allowedContentTypes options = Some ps"
    and "ps \<noteq> []"
    and "\<forall>p \<in> set ps. \<not> patternMatches (opt_contentType options) p"
  shows "presignedUploadUrl b options =
           ([], Inl (Error (''Content type '' @ [CHR 0x27] @ opt_contentType options @ [CHR 0x27]
                            @ '' is not allowed. Allowed types: '' @ join '', '' ps)))"
  using assms
  by (simp add: presignedUploadUrl_def contentTypeRejected_iff notAllowedMessage_def)

theorem presignedUploadUrl_rejects_witness:
  "presignedUploadUrl \<lparr>bucket_name = ''gallery'', awsClient = (\<lambda>rq. Inl (Rejected ''unused'')),
                        baseUrl = ''https://acct.r2.cloudflarestorage.com''\<rparr>
     \<lparr>opt_key = ''a.pdf'', opt_contentType = ''application/pdf'', opt_metadata = None,
      opt_expiresIn = None, opt_maxFileSize = None,
      opt_allowedContentTypes = Some [''image/*'', ''text/plain'']\<rparr>
   = ([], Inl (Error (''Content type '' @ [CHR 0x27] @ ''application/pdf'' @ [CHR 0x27]
                      @ '' is not allowed. Allowed types: image/*, text/plain'')))"
proof -
  let ?options = "\<lparr>opt_key = ''a.pdf'', opt_contentType = ''application/pdf'',
      opt_metadata = None, opt_expiresIn = None, opt_maxFileSize = None,
      opt_allowedContentTypes = Some [''image/*'', ''text/plain'']\<rparr>"
  have a: "opt_allowedContentTypes ?options = Some [''image/*'', ''text/plain'']"
    by simp
  have b: "[''image/*'', ''text/plain''] \<noteq> []"
    by simp
  have c: "\<forall>p \<in> set [''image/*'', ''text/plain'']. \<not> patternMatches (opt_contentType ?options) p"
    by (simp add: patternMatches_def endsWith_def sliceEnd_def startsWith_def)
  show ?thesis
    using presignedUploadUrl_rejects [OF a b c] by simp
qed

subsection \<open>Existence checks\<close>

lemma headCheck_result:
  "snd (headCheck fetch b url) =
     Inr (\<exists>s r. awsClient b (headerSigned url ''HEAD'') = Inr s
                \<and> fetch (fetchOf s ''HEAD'') = Inr r \<and> 200 \<le> status r \<and> status r \<le> 299)"
  by (auto simp: headCheck_def Let_def ok_def split: sum.splits)

text \<open>
  C4. \<^verbatim>\<open>exists\<close> and \<^verbatim>\<open>objectExists\<close> always return a boolean, whatever the signer and
  the network do; it is \<^verbatim>\<open>true\<close> exactly when the signer returned a request, the HEAD
  exchange returned a response, and its status is in 200 to 299.
\<close>

theorem existence_checks_total:
  "snd (exists fetch b) =
     Inr (\<exists>s r. awsClient b (headerSigned (baseUrl b @ ''/'' @ bucket_name b @ ''/'') ''HEAD'') = Inr s
                \<and> fetch (fetchOf s ''HEAD'') = Inr r \<and> 200 \<le> status r \<and> status r \<le> 299)
   \<and> snd (objectExists fetch b key) =
     Inr (\<exists>s r. awsClient b (headerSigned (baseUrl b @ ''/'' @ bucket_name b @ ''/'' @ key) ''HEAD'') = Inr s
                \<and> fetch (fetchOf s ''HEAD'') = Inr r \<and> 200 \<le> status r \<and> status r \<le> 299)"
  unfolding exists_def objectExists_def
  by (simp only: headCheck_result simp_thms)

subsection \<open>Deletion\<close>

text \<open>
  C5. When the DELETE exchange returns a response, \<^verbatim>\<open>deleteObject\<close> completes if the status
  is in 200 to 299 or is 404, and otherwise throws an error whose message carries the
  status code and the status text.
\<close>

theorem deleteObject_status:
  assumes "awsClient b (headerSigned (baseUrl b @ ''/'' @ bucket_name b @ ''/'' @ key) ''DELETE'') = Inr s"
    and "fetch (fetchOf s ''DELETE'') = Inr r"
  shows "snd (deleteObject fetch b key) =
           (if (200 \<le> status r \<and> status r \<le> 299) \<or> status r = 404 then Inr ()
            else Inl (Error (''Delete failed: '' @ digits10 (status r) @ '' '' @ statusText r)))"
  using assms
  by (simp add: deleteObject_def Let_def ok_def)

theorem deleteObject_status_witness:
  "snd (deleteObject
          (\<lambda>fq. Inr \<lparr>status = 404, statusText = ''Not Found'', resp_headers = [],
                      resp_text = Inr []\<rparr>)
          \<lparr>bucket_name = ''gallery'',
           awsClient = (\<lambda>rq. Inr \<lparr>signed_url = sq_url rq, signed_headers = []\<rparr>),
           baseUrl = ''https://acct.r2.cloudflarestorage.com''\<rparr> ''gone.txt'') = Inr ()
   \<and> snd (deleteObject
          (\<lambda>fq. Inr \<lparr>status = 503, statusText = ''Service Unavailable'', resp_headers = [],
                      resp_text = Inr []\<rparr>)
          \<lparr>bucket_name = ''gallery'',
           awsClient = (\<lambda>rq. Inr \<lparr>signed_url = sq_url rq, signed_headers = []\<rparr>),
           baseUrl = ''https://acct.r2.cloudflarestorage.com''\<rparr> ''gone.txt'')
       = Inl (Error ''Delete failed: 503 Service Unavailable'')"
proof -
  let ?b = "\<lparr>bucket_name = ''gallery'',
           awsClient = (\<lambda>rq. Inr \<lparr>signed_url = sq_url rq, signed_headers = []\<rparr>),
           baseUrl = ''https://acct.r2.cloudflarestorage.com''\<rparr>"
  let ?u = "baseUrl ?b @ ''/'' @ bucket_name ?b @ ''/'' @ ''gone.txt''"
  let ?s = "\<lparr>signed_url = ?u, signed_headers = []\<rparr>"
  let ?f = "\<lambda>n t. (\<lambda>fq :: fetch_request. (Inr \<lparr>status = n, statusText = t, resp_headers = [],
                      resp_text = Inr []\<rparr> :: thrown + response))"
  have sg: "awsClient ?b (headerSigned ?u ''DELETE'') = Inr ?s"
    by (simp add: headerSigned_def)
  have d: "digits10 503 = ''503''"
    by code_simp
  show ?thesis
    using deleteObject_status [OF sg, of "?f 404 ''Not Found''"]
      deleteObject_status [OF sg, of "?f 503 ''Service Unavailable''"] d
    by simp
qed

subsection \<open>Expiry of presigned URLs\<close>

text \<open>
  What the two presigning operations hand to the signer and return, whatever the signer
  does with it: \<^verbatim>\<open>presignedUploadUrl\<close> passes \<^verbatim>\<open>expires\<close> 86400 when no expiry is
  supplied, and its result carries the number it passed; \<^verbatim>\<open>presignedDownloadUrl\<close> passes
  3600 when none is supplied; the call to the signer is the only call it makes; its result
  carries the number it passed and an empty content type, and the signer's URL whenever
  the signer returns one.
\<close>

lemma presigned_requests:
  "(opt_expiresIn uo = None \<longrightarrow> sq_expires (uploadSignRequest b uo) = Some 86400)
   \<and> (\<forall>r. snd (presignedUploadUrl b uo) = Inr r \<longrightarrow>
          fst (presignedUploadUrl b uo) = [Signed (uploadSignRequest b uo)]
          \<and> sq_expires (uploadSignRequest b uo) = Some (res_expiresIn r))
   \<and> (dl_expiresIn d = None \<longrightarrow> sq_expires (downloadSignRequest b key d) = Some 3600)
   \<and> fst (presignedDownloadUrl b key d) = [Signed (downloadSignRequest b key d)]
   \<and> (\<forall>r. snd (presignedDownloadUrl b key d) = Inr r \<longrightarrow>
          res_contentType r = [] \<and> res_key r = key
          \<and> sq_expires (downloadSignRequest b key d) = Some (res_expiresIn r))
   \<and> (\<forall>s. awsClient b (downloadSignRequest b key d) = Inr s \<longrightarrow>
          (\<exists>r. snd (presignedDownloadUrl b key d) = Inr r \<and> res_url r = signed_url s))"
proof (intro conjI allI impI)
  assume "opt_expiresIn uo = None"
  then show "sq_expires (uploadSignRequest b uo) = Some 86400"
    by (simp add: uploadSignRequest_def)
next
  fix r assume r: "snd (presignedUploadUrl b uo) = Inr r"
  then show "fst (presignedUploadUrl b uo) = [Signed (uploadSignRequest b uo)]"
    by (auto simp: presignedUploadUrl_def Let_def split: if_splits sum.splits)
  from r show "sq_expires (uploadSignRequest b uo) = Some (res_expiresIn r)"
    by (auto simp: presignedUploadUrl_def uploadSignRequest_def Let_def
        split: if_splits sum.splits)
next
  assume "dl_expiresIn d = None"
  then show "sq_expires (downloadSignRequest b key d) = Some 3600"
    by (simp add: downloadSignRequest_def)
next
  show "fst (presignedDownloadUrl b key d) = [Signed (downloadSignRequest b key d)]"
    by (simp add: presignedDownloadUrl_def Let_def split: sum.splits)
next
  fix r assume r: "snd (presignedDownloadUrl b key d) = Inr r"
  then show "res_contentType r = []" "res_key r = key"
    by (auto simp: presignedDownloadUrl_def Let_def split: sum.splits)
  from r show "sq_expires (downloadSignRequest b key d) = Some (res_expiresIn r)"
    by (auto simp: presignedDownloadUrl_def downloadSignRequest_def Let_def split: sum.splits)
next
  fix s assume "awsClient b (downloadSignRequest b key d) = Inr s"
  then show "\<exists>r. snd (presignedDownloadUrl b key d) = Inr r \<and> res_url r = signed_url s"
    by (simp add: presignedDownloadUrl_def Let_def)
qed

text \<open>
  C9. With the signer the client is built with, the claim fails on the code: a call of
  \<^verbatim>\<open>presignedDownloadUrl\<close> without an expiry returns a URL stamped with the lifetime
  86400 while its result reports 3600, and a call of \<^verbatim>\<open>presignedUploadUrl\<close> with the
  expiry 600 returns a URL stamped with 86400 while its result reports 600. The expiry
  the code passes is not the one the URL is signed with.
\<close>

theorem presigned_expiry_not_applied:
  "snd (presignedDownloadUrl
          \<lparr>bucket_name = ''gallery'', awsClient = stampExpiry,
           baseUrl = ''https://acct.r2.cloudflarestorage.com''\<rparr>
          ''missing.txt'' \<lparr>dl_expiresIn = None\<rparr>)
     = Inr \<lparr>res_url =
              ''https://acct.r2.cloudflarestorage.com/gallery/missing.txt?X-Amz-Expires=86400'',
            res_key = ''missing.txt'', res_contentType = [], res_expiresIn = 3600,
            res_metadata = None, res_maxFileSize = None, res_allowedContentTypes = None\<rparr>
   \<and> snd (presignedUploadUrl
          \<lparr>bucket_name = ''gallery'', awsClient = stampExpiry,
           baseUrl = ''https://acct.r2.cloudflarestorage.com''\<rparr>
          \<lparr>opt_key = ''a.png'', opt_contentType = ''image/png'', opt_metadata = None,
           opt_expiresIn = Some 600, opt_maxFileSize = None, opt_allowedContentTypes = None\<rparr>)
     = Inr \<lparr>res_url =
              ''https://acct.r2.cloudflarestorage.com/gallery/a.png?X-Amz-Expires=86400'',
            res_key = ''a.png'', res_contentType = ''image/png'', res_expiresIn = 600,
            res_metadata = None, res_maxFileSize = None, res_allowedContentTypes = None\<rparr>"
  by (simp add: presignedDownloadUrl_def downloadSignRequest_def presignedUploadUrl_def
      uploadSignRequest_def contentTypeRejected_def stampExpiry_def Let_def)

subsection \<open>Retrieval: the descriptor of an object\<close>

lemma lowerChar_idem: "lowerChar (lowerChar c) = lowerChar c"
  unfolding lowerChar_def Let_def
  by (auto simp: of_char_of)

lemma toLowerCase_drop: "toLowerCase (drop n (toLowerCase s)) = drop n (toLowerCase s)"
  by (simp add: toLowerCase_def drop_map lowerChar_idem)

lemma splitAt_startsWith:
  "startsWith s p \<Longrightarrow> p \<noteq> [] \<Longrightarrow> splitAt p s = Some ([], drop (length p) s)"
  by (cases s) (auto simp: startsWith_def)

lemma stripPrefix:
  "startsWith s ''x-amz-meta-'' \<Longrightarrow> replaceFirst ''x-amz-meta-'' [] s = drop 11 s"
  by (simp add: replaceFirst_def splitAt_startsWith eval_nat_numeral)

lemma metadataStep_meta:
  "startsWith (toLowerCase n) ''x-amz-meta-'' \<Longrightarrow>
     metadataStep acc (n, v) = objectSet (drop 11 (toLowerCase n)) v acc"
  by (simp add: stripPrefix)

lemma metadataStep_other:
  "\<not> startsWith (toLowerCase n) ''x-amz-meta-'' \<Longrightarrow> metadataStep acc (n, v) = acc"
  by simp

lemma objectSet_keys:
  assumes "a \<in> fst ` set (objectSet k v obj)"
  shows "a = k \<or> a \<in> fst ` set obj"
proof (cases "k = ''__proto__''")
  case True
  with assms show ?thesis by (simp add: objectSet_def)
next
  case False
  with assms have "a \<in> {k} \<union> fst ` set obj"
    by (simp only: objectSet_def if_False AList.dom_update)
  then show ?thesis by blast
qed

lemma foldl_metadata_lower:
  "\<forall>k \<in> fst ` set acc. toLowerCase k = k \<Longrightarrow>
   \<forall>k \<in> fst ` set (foldl metadataStep acc hs). toLowerCase k = k"
proof (induction hs arbitrary: acc)
  case Nil
  then show ?case by simp
next
  case (Cons h hs)
  obtain n v where h: "h = (n, v)" by (cases h)
  have "\<forall>k \<in> fst ` set (metadataStep acc (n, v)). toLowerCase k = k"
  proof (cases "startsWith (toLowerCase n) ''x-amz-meta-''")
    case True
    let ?k = "drop 11 (toLowerCase n)"
    show ?thesis
      unfolding metadataStep_meta [OF True]
    proof
      fix a assume "a \<in> fst ` set (objectSet ?k v acc)"
      then have "a = ?k \<or> a \<in> fst ` set acc" by (rule objectSet_keys)
      then show "toLowerCase a = a"
        using Cons.prems toLowerCase_drop [of 11 n] by blast
    qed
  next
    case False
    show ?thesis
      unfolding metadataStep_other [OF False] by (rule Cons.prems)
  qed
  from Cons.IH [OF this] show ?case by (simp only: h foldl_Cons)
qed

lemma extractMetadata_lower: "\<forall>k \<in> fst ` set (extractMetadata hs). toLowerCase k = k"
  unfolding extractMetadata_def by (rule foldl_metadata_lower) simp

lemma foldl_metadata_none:
  "\<not> (\<exists>(n, v) \<in> set hs. startsWith (toLowerCase n) ''x-amz-meta-'') \<Longrightarrow>
   foldl metadataStep acc hs = acc"
  by (induction hs arbitrary: acc) auto


lemma describeObject_body: "obj_body (describeObject key r) = r"
  by (simp add: describeObject_def Let_def)

lemma getObject_cases:
  "snd (getObject fetch b key) = Inr d \<Longrightarrow> \<exists>r. ok r \<and> d = describeObject key r"
  unfolding getObject_def Let_def
  by (simp split: sum.splits if_splits) blast

lemma getObject_Inr:
  assumes "snd (getObject fetch b key) = Inr d"
  shows "ok (obj_body d) \<and> d = describeObject key (obj_body d)"
proof -
  from getObject_cases [OF assms] obtain r where "ok r" "d = describeObject key r"
    by blast
  then show ?thesis by (simp add: describeObject_body)
qed

lemma digit_char: "d < 10 \<Longrightarrow> (of_char (char_of (48 + d) :: char) :: nat) = 48 + d"
  by (simp add: of_char_of)

lemma digits10_digits: "\<forall>c \<in> set (digits10 n). isDigit c"
proof (induction n rule: digits10.induct)
  case (1 n)
  show ?case
  proof (cases "n < 10")
    case True
    then show ?thesis
      by (subst digits10.simps) (simp add: isDigit_def digit_char)
  next
    case False
    have "n mod 10 < 10" by simp
    then have "isDigit (char_of (48 + n mod 10))"
      by (simp add: isDigit_def digit_char)
    with False 1 show ?thesis
      by (subst digits10.simps) simp
  qed
qed

lemma digits10_nonempty: "digits10 n \<noteq> []"
  by (subst digits10.simps) simp

lemma decimalValue_snoc:
  "decimalValue (ds @ [c]) = 10 * decimalValue ds + (of_char c - 48)"
  by (simp add: decimalValue_def)

lemma decimalValue_digits10: "decimalValue (digits10 n) = n"
proof (induction n rule: digits10.induct)
  case (1 n)
  show ?case
  proof (cases "n < 10")
    case True
    then show ?thesis
      by (subst digits10.simps) (simp add: decimalValue_def digit_char)
  next
    case False
    have "n mod 10 < 10" by simp
    then have "(of_char (char_of (48 + n mod 10) :: char) :: nat) - 48 = n mod 10"
      by (simp only: digit_char add_diff_cancel_left')
    with False 1 show ?thesis
      by (subst digits10.simps) (simp add: decimalValue_snoc)
  qed
qed

lemma isDigit_plain:
  "isDigit c \<Longrightarrow> \<not> isWhiteSpace c \<and> c \<noteq> CHR ''+'' \<and> c \<noteq> CHR ''-''"
  by (auto simp: isDigit_def isWhiteSpace_def)

lemma parseInt10_digits:
  assumes "s \<noteq> []" and "\<forall>c \<in> set s. isDigit c" and "decimalValue s < 2 ^ 53"
  shows "parseInt10 s = Num (int (decimalValue s))"
proof -
  from assms obtain c cs where s: "s = c # cs" by (cases s) auto
  with assms have c: "isDigit c" by simp
  from isDigit_plain [OF c] have "dropWhile isWhiteSpace s = s"
    by (simp add: s)
  moreover from assms have "takeWhile isDigit s = s"
    by (simp add: takeWhile_eq_all_conv)
  moreover from assms(3) have "toDouble (decimalValue s) = Some (decimalValue s)"
    by (simp add: toDouble_def)
  ultimately show ?thesis
    using isDigit_plain [OF c] assms(1)
    by (simp add: parseInt10_def Let_def s)
qed

lemma parseInt10_digits10: "n < 2 ^ 53 \<Longrightarrow> parseInt10 (digits10 n) = Num (int n)"
  using parseInt10_digits [OF digits10_nonempty digits10_digits, of n]
  by (simp add: decimalValue_digits10)

text \<open>
  Beyond \<open>2^53\<close> the digits of a header are rounded: \<open>2^53 + 1\<close> falls to \<open>2^53\<close>,
  \<open>2^53 + 3\<close> rises to \<open>2^53 + 4\<close>, and the digits of \<open>2^1024\<close> are infinite.
\<close>

lemma bitLength_power2: "bitLength (2 ^ k) = Suc k"
  by (induction k) (simp_all add: bitLength.simps)

lemma toDouble_overflow: "toDouble (2 ^ 1024) = None"
proof -
  have "bitLength (2 ^ 1024) = 1025"
    by (simp only: bitLength_power2)
  then show ?thesis
    by (simp add: toDouble_def Let_def)
qed

lemma toDouble_rounds:
  "toDouble 9007199254740993 = Some 9007199254740992"
  "toDouble 9007199254740995 = Some 9007199254740996"
proof -
  have "bitLength 9007199254740993 = 54" "bitLength 9007199254740995 = 54"
    by (simp_all add: bitLength.simps)
  then show "toDouble 9007199254740993 = Some 9007199254740992"
    "toDouble 9007199254740995 = Some 9007199254740996"
    by (simp_all add: toDouble_def Let_def)
qed

lemma parseInt10_rounds:
  "parseInt10 ''9007199254740993'' = Num 9007199254740992"
  "parseInt10 ''9007199254740995'' = Num 9007199254740996"
  "parseInt10 ''-9007199254740993'' = Num (- 9007199254740992)"
  "parseInt10 ''-0'' = NegZero"
proof -
  have d: "decimalValue ''9007199254740993'' = 9007199254740993"
    "decimalValue ''9007199254740995'' = 9007199254740995"
    "decimalValue ''0'' = 0"
    by (simp_all add: decimalValue_def)
  show "parseInt10 ''9007199254740993'' = Num 9007199254740992"
    "parseInt10 ''9007199254740995'' = Num 9007199254740996"
    "parseInt10 ''-9007199254740993'' = Num (- 9007199254740992)"
    "parseInt10 ''-0'' = NegZero"
    by (simp_all add: parseInt10_def Let_def isWhiteSpace_def isDigit_def d toDouble_rounds)
qed

lemma parseInt10_overflow:
  "parseInt10 ''179769313486231590772930519078902473361797697894230657273430081157732675805500963132708477322407536021120113879871393357658789768814416622492847430639474124377767893424865485276302219601246094119453082952085005768838150682342462881473913110540827237163350510684586298239947245938479716304835356329624224137216'' = PosInfinity"
proof -
  have "decimalValue ''179769313486231590772930519078902473361797697894230657273430081157732675805500963132708477322407536021120113879871393357658789768814416622492847430639474124377767893424865485276302219601246094119453082952085005768838150682342462881473913110540827237163350510684586298239947245938479716304835356329624224137216'' = 2 ^ 1024"
    by (simp add: decimalValue_def)
  then show ?thesis
    by (simp add: parseInt10_def Let_def isWhiteSpace_def isDigit_def toDouble_overflow
        del: power_numeral)
qed

text \<open>
  C10. In the descriptor of a successful \<^verbatim>\<open>getObject\<close>, the metadata is absent when no
  response header has a lowercased name starting with \<open>x-amz-meta-\<close>, and every key of
  a metadata mapping that is present is its own lowercase form.
\<close>

theorem getObject_metadata:
  assumes "snd (getObject fetch b key) = Inr d"
  shows "(\<not> (\<exists>(n, v) \<in> set (resp_headers (obj_body d)). startsWith (toLowerCase n) ''x-amz-meta-'')
            \<longrightarrow> obj_metadata d = None)
         \<and> (\<forall>m. obj_metadata d = Some m \<longrightarrow> (\<forall>k \<in> fst ` set m. toLowerCase k = k))"
proof -
  from getObject_Inr [OF assms] have d: "d = describeObject key (obj_body d)" ..
  let ?hs = "resp_headers (obj_body d)"
  have m: "obj_metadata d = (if extractMetadata ?hs = [] then None else Some (extractMetadata ?hs))"
    by (subst d) (simp add: describeObject_def Let_def)
  show ?thesis
  proof (intro conjI impI allI)
    assume "\<not> (\<exists>(n, v) \<in> set ?hs. startsWith (toLowerCase n) ''x-amz-meta-'')"
    then have "extractMetadata ?hs = []"
      unfolding extractMetadata_def by (rule foldl_metadata_none)
    with m show "obj_metadata d = None" by simp
  next
    fix m' assume "obj_metadata d = Some m'"
    with m have "m' = extractMetadata ?hs" by (simp split: if_splits)
    then show "\<forall>k \<in> fst ` set m'. toLowerCase k = k"
      using extractMetadata_lower by simp
  qed
qed

theorem getObject_metadata_witness:
  "snd (getObject
          (\<lambda>fq. Inr \<lparr>status = 200, statusText = ''OK'',
                      resp_headers = [(''content-type'', ''text/plain'')], resp_text = Inr []\<rparr>)
          \<lparr>bucket_name = ''gallery'',
           awsClient = (\<lambda>rq. Inr \<lparr>signed_url = sq_url rq, signed_headers = []\<rparr>),
           baseUrl = ''https://acct.r2.cloudflarestorage.com''\<rparr> ''a.txt'')
     = Inr (describeObject ''a.txt''
              \<lparr>status = 200, statusText = ''OK'',
               resp_headers = [(''content-type'', ''text/plain'')], resp_text = Inr []\<rparr>)
   \<and> obj_metadata (describeObject ''a.txt''
              \<lparr>status = 200, statusText = ''OK'',
               resp_headers = [(''content-type'', ''text/plain'')], resp_text = Inr []\<rparr>) = None
   \<and> snd (getObject
          (\<lambda>fq. Inr \<lparr>status = 200, statusText = ''OK'',
                      resp_headers = [(''X-Amz-Meta-Owner'', ''alice'')], resp_text = Inr []\<rparr>)
          \<lparr>bucket_name = ''gallery'',
           awsClient = (\<lambda>rq. Inr \<lparr>signed_url = sq_url rq, signed_headers = []\<rparr>),
           baseUrl = ''https://acct.r2.cloudflarestorage.com''\<rparr> ''a.txt'')
     = Inr (describeObject ''a.txt''
              \<lparr>status = 200, statusText = ''OK'',
               resp_headers = [(''X-Amz-Meta-Owner'', ''alice'')], resp_text = Inr []\<rparr>)
   \<and> obj_metadata (describeObject ''a.txt''
              \<lparr>status = 200, statusText = ''OK'',
               resp_headers = [(''X-Amz-Meta-Owner'', ''alice'')], resp_text = Inr []\<rparr>)
       = Some [(''owner'', ''alice'')]
   \<and> toLowerCase ''owner'' = ''owner''"
proof -
  let ?b = "\<lparr>bucket_name = ''gallery'',
           awsClient = (\<lambda>rq. Inr \<lparr>signed_url = sq_url rq, signed_headers = []\<rparr>),
           baseUrl = ''https://acct.r2.cloudflarestorage.com''\<rparr>"
  let ?r1 = "\<lparr>status = 200, statusText = ''OK'',
               resp_headers = [(''content-type'', ''text/plain'')], resp_text = Inr []\<rparr>"
  let ?r2 = "\<lparr>status = 200, statusText = ''OK'',
               resp_headers = [(''X-Amz-Meta-Owner'', ''alice'')], resp_text = Inr []\<rparr>"
  have g1: "snd (getObject (\<lambda>fq. Inr ?r1) ?b ''a.txt'') = Inr (describeObject ''a.txt'' ?r1)"
    by (simp add: getObject_def Let_def ok_def)
  have g2: "snd (getObject (\<lambda>fq. Inr ?r2) ?b ''a.txt'') = Inr (describeObject ''a.txt'' ?r2)"
    by (simp add: getObject_def Let_def ok_def)
  have n1: "\<not> (\<exists>(n, v) \<in> set (resp_headers ?r1). startsWith (toLowerCase n) ''x-amz-meta-'')"
    by code_simp
  have m2: "obj_metadata (describeObject ''a.txt'' ?r2) = Some [(''owner'', ''alice'')]"
    by code_simp
  from getObject_metadata [OF g1] n1
  have w1: "obj_metadata (describeObject ''a.txt'' ?r1) = None"
    by (simp only: describeObject_body) blast
  from getObject_metadata [OF g2] m2
  have w2: "toLowerCase ''owner'' = ''owner''"
    by simp
  from g1 g2 w1 m2 w2 show ?thesis by blast
qed

text \<open>
  C7, as the code has it. In the descriptor of a successful \<^verbatim>\<open>getObject\<close>: the etag is
  the \<^verbatim>\<open>ETag\<close> header without its quote characters, and absent when the header is absent
  or nothing else is in it; the size is 0 when the \<^verbatim>\<open>Content-Length\<close> header is absent
  or empty and \<^verbatim>\<open>parseInt\<close> of the header otherwise, which is \<open>n\<close> for the decimal
  digits of an \<open>n\<close> below \<open>2^53\<close>; the date of last modification is the call time when the
  \<^verbatim>\<open>Last-Modified\<close> header is absent or empty and the date made of the header otherwise.
\<close>

theorem getObject_descriptor:
  assumes "snd (getObject fetch b key) = Inr d"
  shows "obj_etag d =
           (case headersGet (resp_headers (obj_body d)) ''ETag'' of
              None \<Rightarrow> None
            | Some e \<Rightarrow> if filter (\<lambda>c. c \<noteq> CHR 0x22) e = [] then None
                        else Some (filter (\<lambda>c. c \<noteq> CHR 0x22) e))
         \<and> obj_size d =
           (case headersGet (resp_headers (obj_body d)) ''Content-Length'' of
              None \<Rightarrow> Num 0
            | Some s \<Rightarrow> if s = [] then Num 0 else parseInt10 s)
         \<and> (\<forall>n < 2 ^ 53.
               headersGet (resp_headers (obj_body d)) ''Content-Length'' = Some (digits10 n)
                \<longrightarrow> obj_size d = Num (int n))
         \<and> obj_lastModified d =
           (case headersGet (resp_headers (obj_body d)) ''Last-Modified'' of
              None \<Rightarrow> CallTime
            | Some s \<Rightarrow> if s = [] then CallTime else DateOf s)"
proof -
  from getObject_Inr [OF assms] have d: "d = describeObject key (obj_body d)" ..
  let ?hs = "resp_headers (obj_body d)"
  have e: "obj_etag d = orUndefined (map_option stripQuotes (headersGet ?hs ''ETag''))"
    by (subst d) (simp add: describeObject_def Let_def)
  have s: "obj_size d =
             (if truthy (headersGet ?hs ''Content-Length'')
              then parseInt10 (the (headersGet ?hs ''Content-Length'')) else Num 0)"
    by (subst d) (simp add: describeObject_def Let_def)
  have l: "obj_lastModified d =
             (if truthy (headersGet ?hs ''Last-Modified'')
              then DateOf (the (headersGet ?hs ''Last-Modified'')) else CallTime)"
    by (subst d) (simp add: describeObject_def Let_def)
  have size: "obj_size d =
           (case headersGet ?hs ''Content-Length'' of
              None \<Rightarrow> Num 0 | Some s \<Rightarrow> if s = [] then Num 0 else parseInt10 s)"
    by (simp add: s split: option.splits)
  show ?thesis
  proof (intro conjI allI impI)
    show "obj_etag d =
           (case headersGet ?hs ''ETag'' of
              None \<Rightarrow> None
            | Some e \<Rightarrow> if filter (\<lambda>c. c \<noteq> CHR 0x22) e = [] then None
                        else Some (filter (\<lambda>c. c \<noteq> CHR 0x22) e))"
      by (simp add: e orUndefined_def stripQuotes_def split: option.splits)
    show "obj_size d =
           (case headersGet ?hs ''Content-Length'' of
              None \<Rightarrow> Num 0 | Some s \<Rightarrow> if s = [] then Num 0 else parseInt10 s)"
      by (rule size)
    show "obj_lastModified d =
           (case headersGet ?hs ''Last-Modified'' of
              None \<Rightarrow> CallTime | Some s \<Rightarrow> if s = [] then CallTime else DateOf s)"
      by (simp add: l split: option.splits)
  next
    fix n :: nat
    assume "n < 2 ^ 53" and "headersGet ?hs ''Content-Length'' = Some (digits10 n)"
    then show "obj_size d = Num (int n)"
      by (simp add: size digits10_nonempty parseInt10_digits10)
  qed
qed

theorem getObject_descriptor_witness:
  "snd (getObject
          (\<lambda>fq. Inr \<lparr>status = 200, statusText = ''OK'',
                      resp_headers = [(''content-length'', ''42''),
                                      (''etag'', CHR 0x22 # ''abc123'' @ [CHR 0x22])],
                      resp_text = Inr []\<rparr>)
          \<lparr>bucket_name = ''gallery'',
           awsClient = (\<lambda>rq. Inr \<lparr>signed_url = sq_url rq, signed_headers = []\<rparr>),
           baseUrl = ''https://acct.r2.cloudflarestorage.com''\<rparr> ''a.txt'')
     = Inr (describeObject ''a.txt''
              \<lparr>status = 200, statusText = ''OK'',
               resp_headers = [(''content-length'', ''42''),
                               (''etag'', CHR 0x22 # ''abc123'' @ [CHR 0x22])],
               resp_text = Inr []\<rparr>)
   \<and> obj_etag (describeObject ''a.txt''
              \<lparr>status = 200, statusText = ''OK'',
               resp_headers = [(''content-length'', ''42''),
                               (''etag'', CHR 0x22 # ''abc123'' @ [CHR 0x22])],
               resp_text = Inr []\<rparr>) = Some ''abc123''
   \<and> obj_size (describeObject ''a.txt''
              \<lparr>status = 200, statusText = ''OK'',
               resp_headers = [(''content-length'', ''42''),
                               (''etag'', CHR 0x22 # ''abc123'' @ [CHR 0x22])],
               resp_text = Inr []\<rparr>) = Num 42
   \<and> obj_lastModified (describeObject ''a.txt''
              \<lparr>status = 200, statusText = ''OK'',
               resp_headers = [(''content-length'', ''42''),
                               (''etag'', CHR 0x22 # ''abc123'' @ [CHR 0x22])],
               resp_text = Inr []\<rparr>) = CallTime"
proof -
  let ?b = "\<lparr>bucket_name = ''gallery'',
           awsClient = (\<lambda>rq. Inr \<lparr>signed_url = sq_url rq, signed_headers = []\<rparr>),
           baseUrl = ''https://acct.r2.cloudflarestorage.com''\<rparr>"
  let ?hs = "[(''content-length'', ''42''), (''etag'', CHR 0x22 # ''abc123'' @ [CHR 0x22])]"
  let ?r = "\<lparr>status = 200, statusText = ''OK'', resp_headers = ?hs, resp_text = Inr []\<rparr>"
  have g: "snd (getObject (\<lambda>fq. Inr ?r) ?b ''a.txt'') = Inr (describeObject ''a.txt'' ?r)"
    by (simp add: getObject_def Let_def ok_def)
  have h1: "headersGet ?hs ''ETag'' = Some (CHR 0x22 # ''abc123'' @ [CHR 0x22])"
    by code_simp
  have h2: "headersGet ?hs ''Content-Length'' = Some ''42''"
    by code_simp
  have h3: "headersGet ?hs ''Last-Modified'' = None"
    by code_simp
  have p: "parseInt10 ''42'' = Num 42"
    by (simp add: parseInt10_def Let_def isWhiteSpace_def isDigit_def decimalValue_def
        toDouble_def)
  from getObject_descriptor [OF g] g show ?thesis
    by (simp add: describeObject_body h1 [simplified append.simps] h2 [simplified append.simps]
        h3 [simplified append.simps] p del: headersGet.simps)
qed

theorem getObject_unparsable_counterexample:
  "obj_size (describeObject ''a.txt''
              \<lparr>status = 200, statusText = ''OK'',
               resp_headers = [(''content-length'', ''abc''), (''last-modified'', ''soon'')],
               resp_text = Inr []\<rparr>) = NaN
   \<and> obj_size (describeObject ''a.txt''
              \<lparr>status = 200, statusText = ''OK'',
               resp_headers = [(''content-length'', ''abc''), (''last-modified'', ''soon'')],
               resp_text = Inr []\<rparr>) \<noteq> Num 0
   \<and> obj_lastModified (describeObject ''a.txt''
              \<lparr>status = 200, statusText = ''OK'',
               resp_headers = [(''content-length'', ''abc''), (''last-modified'', ''soon'')],
               resp_text = Inr []\<rparr>) = DateOf ''soon''"
  by code_simp

subsection \<open>Listing: one descriptor per named block\<close>

lemma names_of_blocks:
  "map bi_name (concat (map bucketOf bs)) =
     map the (filter truthy (map (\<lambda>bx. parseXmlTag bx ''Name'') bs))"
  by (induction bs) (simp_all add: bucketOf_def Let_def)

lemma bucketOf_location: "b \<in> set (bucketOf bx) \<Longrightarrow> bi_location b = ''auto''"
  by (simp add: bucketOf_def Let_def split: if_splits)

lemma location_of_blocks: "\<forall>b \<in> set (concat (map bucketOf bs)). bi_location b = ''auto''"
  using bucketOf_location by auto

lemma splitAt_text:
  "CHR ''<'' \<notin> set n \<Longrightarrow>
     splitAt (CHR ''<'' # p) (n @ r) = map_option (\<lambda>(b, a). (n @ b, a)) (splitAt (CHR ''<'' # p) r)"
proof (induction n)
  case Nil
  show ?case by (simp add: option.map_ident split_def)
next
  case (Cons c n)
  then have "\<not> startsWith (c # n @ r) (CHR ''<'' # p)"
    by (auto simp: startsWith_def)
  with Cons show ?case
    by (simp add: option.map_comp comp_def split_def)
qed

lemma xmlTagMatch_text:
  "CHR ''<'' \<notin> set n \<Longrightarrow> xmlTagMatch tag (n @ r) = xmlTagMatch tag r"
  by (induction n) (auto simp: startsWith_def Let_def)

lemma dropWhile_text:
  "CHR ''<'' \<notin> set n \<Longrightarrow> dropWhile (\<lambda>x. x \<noteq> CHR ''<'') (n @ CHR ''<'' # r) = CHR ''<'' # r"
  by (induction n) auto

lemma takeWhile_text:
  "CHR ''<'' \<notin> set n \<Longrightarrow> takeWhile (\<lambda>x. x \<noteq> CHR ''<'') (n @ CHR ''<'' # r) = n"
  by (induction n) auto


lemma bucketMatches_block:
  assumes "CHR ''<'' \<notin> set n" and "CHR ''<'' \<notin> set d"
  shows "bucketMatches (bucketBlock n d @ rest) =
           (''<Name>'' @ n @ ''</Name><CreationDate>'' @ d @ ''</CreationDate>'')
             # bucketMatches rest"
proof -
  let ?x = "''<Name>'' @ n @ ''</Name><CreationDate>'' @ d @ ''</CreationDate>''"
  have a: "splitAt ''<Bucket>'' (bucketBlock n d @ rest) = Some ([], ?x @ ''</Bucket>'' @ rest)"
    by (simp add: bucketBlock_def startsWith_def)
  have b: "splitAt ''</Bucket>'' (?x @ ''</Bucket>'' @ rest) = Some (?x, rest)"
    by (simp add: startsWith_def splitAt_text [OF assms(1)] splitAt_text [OF assms(2)])
  show ?thesis
    by (subst bucketMatches.simps) (simp only: a b option.case prod.case)
qed

lemma parseXmlTag_block:
  assumes "CHR ''<'' \<notin> set n" and "CHR ''<'' \<notin> set d"
  shows "parseXmlTag (''<Name>'' @ n @ ''</Name><CreationDate>'' @ d @ ''</CreationDate>'') ''Name''
           = Some (trim n)"
    and "parseXmlTag (''<Name>'' @ n @ ''</Name><CreationDate>'' @ d @ ''</CreationDate>'')
           ''CreationDate'' = Some (trim d)"
proof -
  show "parseXmlTag (''<Name>'' @ n @ ''</Name><CreationDate>'' @ d @ ''</CreationDate>'') ''Name''
           = Some (trim n)"
    by (simp add: parseXmlTag_def Let_def startsWith_def
        dropWhile_text [OF assms(1)] takeWhile_text [OF assms(1)])
  show "parseXmlTag (''<Name>'' @ n @ ''</Name><CreationDate>'' @ d @ ''</CreationDate>'')
           ''CreationDate'' = Some (trim d)"
    by (simp add: parseXmlTag_def Let_def startsWith_def xmlTagMatch_text [OF assms(1)]
        dropWhile_text [OF assms(2)] takeWhile_text [OF assms(2)])
qed

lemma bucketMatches_Nil: "bucketMatches [] = []"
  by (subst bucketMatches.simps) simp

lemma parseBucketsXml_blocks:
  assumes "\<forall>(n, d) \<in> set blocks. CHR ''<'' \<notin> set n \<and> CHR ''<'' \<notin> set d \<and> trim n \<noteq> []"
  shows "parseBucketsXml (concat (map (\<lambda>(n, d). bucketBlock n d) blocks)) =
           map (\<lambda>(n, d).
             \<lparr>bi_name = trim n,
              bi_creationDate = (if trim d \<noteq> [] then Some (DateOf (trim d)) else None),
              bi_location = ''auto''\<rparr>) blocks"
  using assms
proof (induction blocks)
  case Nil
  show ?case by (simp add: parseBucketsXml_def bucketMatches_Nil)
next
  case (Cons p blocks)
  obtain n d where p: "p = (n, d)" by (cases p)
  with Cons.prems have nd: "CHR ''<'' \<notin> set n" "CHR ''<'' \<notin> set d" "trim n \<noteq> []"
    by auto
  from Cons have IH: "parseBucketsXml (concat (map (\<lambda>(n, d). bucketBlock n d) blocks)) =
           map (\<lambda>(n, d).
             \<lparr>bi_name = trim n,
              bi_creationDate = (if trim d \<noteq> [] then Some (DateOf (trim d)) else None),
              bi_location = ''auto''\<rparr>) blocks"
    by simp
  have "bucketOf (''<Name>'' @ n @ ''</Name><CreationDate>'' @ d @ ''</CreationDate>'') =
          [\<lparr>bi_name = trim n,
              bi_creationDate = (if trim d \<noteq> [] then Some (DateOf (trim d)) else None),
              bi_location = ''auto''\<rparr>]"
    unfolding bucketOf_def Let_def parseXmlTag_block [OF nd(1,2)]
    using nd(3) by simp
  then show ?case
    using IH unfolding parseBucketsXml_def
    by (simp only: p list.map prod.case concat.simps bucketMatches_block [OF nd(1,2)]
        append.simps)
qed


text \<open>
  C6, as the code has it. For a successful response with body \<open>xml\<close>, \<^verbatim>\<open>listBuckets\<close>
  returns, in document order, one descriptor for each \<^verbatim>\<open><Bucket>\<close> block whose
  \<^verbatim>\<open><Name>\<close> tag holds a name that is not empty once trimmed, each with location
  \<open>auto\<close>; a block with no such name adds nothing and raises nothing. A body made of
  blocks that each hold a name that is not blank yields exactly their descriptors, in order.
\<close>

theorem listBuckets_descriptors:
  assumes "client_awsClient c (headerSigned (client_baseUrl c) ''GET'') = Inr s"
    and "fetch (fetchOf s ''GET'') = Inr r"
    and "200 \<le> status r \<and> status r \<le> 299"
    and "resp_text r = Inr xml"
  shows "\<exists>bs. snd (listBuckets fetch c) = Inr bs
           \<and> map bi_name bs =
               map the (filter truthy (map (\<lambda>bx. parseXmlTag bx ''Name'') (bucketMatches xml)))
           \<and> (\<forall>b \<in> set bs. bi_location b = ''auto'')
           \<and> (\<forall>blocks.
                 xml = concat (map (\<lambda>(n, d). bucketBlock n d) blocks)
                 \<and> (\<forall>(n, d) \<in> set blocks.
                       CHR ''<'' \<notin> set n \<and> CHR ''<'' \<notin> set d \<and> trim n \<noteq> [])
                 \<longrightarrow> bs = map (\<lambda>(n, d).
                            \<lparr>bi_name = trim n,
                             bi_creationDate =
                               (if trim d \<noteq> [] then Some (DateOf (trim d)) else None),
                             bi_location = ''auto''\<rparr>) blocks)"
proof -
  from assms(3) have "ok r" by (simp add: ok_def)
  with assms(1,2,4) have "snd (listBuckets fetch c) = Inr (parseBucketsXml xml)"
    by (simp add: listBuckets_def Let_def)
  moreover have "map bi_name (parseBucketsXml xml) =
      map the (filter truthy (map (\<lambda>bx. parseXmlTag bx ''Name'') (bucketMatches xml)))"
    unfolding parseBucketsXml_def by (rule names_of_blocks)
  moreover have "\<forall>b \<in> set (parseBucketsXml xml). bi_location b = ''auto''"
    unfolding parseBucketsXml_def by (rule location_of_blocks)
  moreover have "\<forall>blocks.
         xml = concat (map (\<lambda>(n, d). bucketBlock n d) blocks)
         \<and> (\<forall>(n, d) \<in> set blocks.
               CHR ''<'' \<notin> set n \<and> CHR ''<'' \<notin> set d \<and> trim n \<noteq> [])
         \<longrightarrow> parseBucketsXml xml = map (\<lambda>(n, d).
                    \<lparr>bi_name = trim n,
                     bi_creationDate =
                       (if trim d \<noteq> [] then Some (DateOf (trim d)) else None),
                     bi_location = ''auto''\<rparr>) blocks"
    using parseBucketsXml_blocks by blast
  ultimately show ?thesis by blast
qed

theorem listBuckets_descriptors_witness:
  "(\<exists>bs. snd (listBuckets
              (\<lambda>fq. Inr \<lparr>status = 200, statusText = ''OK'', resp_headers = [],
                 resp_text = Inr (''<ListAllMyBucketsResult><Buckets>''
                   @ ''<Bucket><Name>gallery</Name><CreationDate>2024-01-01T00:00:00.000Z</CreationDate></Bucket>''
                   @ ''<Bucket><CreationDate>2024-02-02T00:00:00.000Z</CreationDate></Bucket>''
                   @ ''<Bucket><Name>uploads</Name></Bucket>''
                   @ ''</Buckets></ListAllMyBucketsResult>'')\<rparr>)
              \<lparr>client_awsClient = (\<lambda>rq. Inr \<lparr>signed_url = sq_url rq, signed_headers = []\<rparr>),
               client_baseUrl = ''https://acct.r2.cloudflarestorage.com''\<rparr>) = Inr bs
         \<and> map bi_name bs = [''gallery'', ''uploads'']
         \<and> map bi_location bs = [''auto'', ''auto''])
   \<and> snd (listBuckets
              (\<lambda>fq. Inr \<lparr>status = 200, statusText = ''OK'', resp_headers = [],
                 resp_text = Inr (concat (map (\<lambda>(n, d). bucketBlock n d)
                                    [(''gallery'', ''2024-01-01''), ('' uploads '', [])]))\<rparr>)
              \<lparr>client_awsClient = (\<lambda>rq. Inr \<lparr>signed_url = sq_url rq, signed_headers = []\<rparr>),
               client_baseUrl = ''https://acct.r2.cloudflarestorage.com''\<rparr>)
       = Inr [\<lparr>bi_name = ''gallery'', bi_creationDate = Some (DateOf ''2024-01-01''),
               bi_location = ''auto''\<rparr>,
              \<lparr>bi_name = ''uploads'', bi_creationDate = None, bi_location = ''auto''\<rparr>]"
proof -
  define c where "c = \<lparr>client_awsClient = (\<lambda>rq. Inr \<lparr>signed_url = sq_url rq, signed_headers = []\<rparr>),
               client_baseUrl = ''https://acct.r2.cloudflarestorage.com''\<rparr>"
  define s where "s = \<lparr>signed_url = ''https://acct.r2.cloudflarestorage.com'', signed_headers = []\<rparr>"
  define xml1 where "xml1 = ''<ListAllMyBucketsResult><Buckets>''
                   @ ''<Bucket><Name>gallery</Name><CreationDate>2024-01-01T00:00:00.000Z</CreationDate></Bucket>''
                   @ ''<Bucket><CreationDate>2024-02-02T00:00:00.000Z</CreationDate></Bucket>''
                   @ ''<Bucket><Name>uploads</Name></Bucket>''
                   @ ''</Buckets></ListAllMyBucketsResult>''"
  define blocks where "blocks = [(''gallery'', ''2024-01-01''), ('' uploads '', [])]"
  define xml2 where "xml2 = concat (map (\<lambda>(n, d). bucketBlock n d) blocks)"
  define r1 where "r1 = \<lparr>status = 200, statusText = ''OK'', resp_headers = [], resp_text = Inr xml1\<rparr>"
  define r2 where "r2 = \<lparr>status = 200, statusText = ''OK'', resp_headers = [], resp_text = Inr xml2\<rparr>"
  define b1 where "b1 = \<lparr>bi_name = ''gallery'', bi_creationDate = Some (DateOf ''2024-01-01''),
               bi_location = ''auto''\<rparr>"
  define b2 where "b2 = \<lparr>bi_name = ''uploads'', bi_creationDate = None, bi_location = ''auto''\<rparr>"
  have sg: "client_awsClient c (headerSigned (client_baseUrl c) ''GET'') = Inr s"
    by (simp add: c_def s_def headerSigned_def)
  have st1: "200 \<le> status r1 \<and> status r1 \<le> 299" and st2: "200 \<le> status r2 \<and> status r2 \<le> 299"
    by (simp_all add: r1_def r2_def)
  have t1: "resp_text r1 = Inr xml1" and t2: "resp_text r2 = Inr xml2"
    by (simp_all add: r1_def r2_def)
  have names: "map the (filter truthy (map (\<lambda>bx. parseXmlTag bx ''Name'') (bucketMatches xml1)))
                 = [''gallery'', ''uploads'']"
    unfolding xml1_def by code_simp
  have wf: "\<forall>(n, d) \<in> set blocks. CHR ''<'' \<notin> set n \<and> CHR ''<'' \<notin> set d \<and> trim n \<noteq> []"
    unfolding blocks_def by code_simp
  have tr: "map (\<lambda>(n, d). \<lparr>bi_name = trim n,
                 bi_creationDate = (if trim d \<noteq> [] then Some (DateOf (trim d)) else None),
                 bi_location = ''auto''\<rparr>) blocks = [b1, b2]"
    unfolding blocks_def b1_def b2_def by code_simp
  note T1 = listBuckets_descriptors [where c = c and s = s and fetch = "\<lambda>fq. Inr r1"
      and r = r1 and xml = xml1, OF sg refl st1 t1]
  note T2 = listBuckets_descriptors [where c = c and s = s and fetch = "\<lambda>fq. Inr r2"
      and r = r2 and xml = xml2, OF sg refl st2 t2]
  from T1 obtain bs where bs: "snd (listBuckets (\<lambda>fq. Inr r1) c) = Inr bs"
    "map bi_name bs =
       map the (filter truthy (map (\<lambda>bx. parseXmlTag bx ''Name'') (bucketMatches xml1)))"
    "\<forall>b \<in> set bs. bi_location b = ''auto''"
    by blast
  from bs(2) have n: "map bi_name bs = [''gallery'', ''uploads'']"
    by (simp only: names)
  then have "length (map bi_name bs) = 2" by simp
  then have "length bs = 2" by simp
  then obtain x y where "bs = [x, y]"
    by (auto simp: length_Suc_conv numeral_2_eq_2)
  with bs(3) have l: "map bi_location bs = [''auto'', ''auto'']"
    by simp
  from bs(1) n l
  have first: "\<exists>bs. snd (listBuckets (\<lambda>fq. Inr r1) c) = Inr bs
         \<and> map bi_name bs = [''gallery'', ''uploads'']
         \<and> map bi_location bs = [''auto'', ''auto'']"
    by (intro exI conjI)
  from T2 obtain bs2 where bs2: "snd (listBuckets (\<lambda>fq. Inr r2) c) = Inr bs2"
    "\<forall>blocks'.
         xml2 = concat (map (\<lambda>(n, d). bucketBlock n d) blocks')
         \<and> (\<forall>(n, d) \<in> set blocks'.
               CHR ''<'' \<notin> set n \<and> CHR ''<'' \<notin> set d \<and> trim n \<noteq> [])
         \<longrightarrow> bs2 = map (\<lambda>(n, d).
                    \<lparr>bi_name = trim n,
                     bi_creationDate =
                       (if trim d \<noteq> [] then Some (DateOf (trim d)) else None),
                     bi_location = ''auto''\<rparr>) blocks'"
    by blast
  from bs2(2) wf xml2_def have "bs2 = map (\<lambda>(n, d).
                    \<lparr>bi_name = trim n,
                     bi_creationDate =
                       (if trim d \<noteq> [] then Some (DateOf (trim d)) else None),
                     bi_location = ''auto''\<rparr>) blocks"
    by blast
  with tr bs2(1) have second: "snd (listBuckets (\<lambda>fq. Inr r2) c) = Inr [b1, b2]"
    by simp
  from first second show ?thesis
    unfolding c_def r1_def r2_def xml1_def xml2_def blocks_def b1_def b2_def
    by (rule conjI)
qed

theorem listBuckets_empty_name_counterexample:
  "bucketMatches ''<Bucket><Name></Name></Bucket>'' = [''<Name></Name>'']
   \<and> parseXmlTag ''<Name></Name>'' ''Name'' = Some []
   \<and> parseBucketsXml ''<Bucket><Name></Name></Bucket>'' = []"
  by code_simp

subsection \<open>Metadata from upload to retrieval\<close>

lemma update_entries:
  "(n, x) \<in> set (AList.update k v al) \<Longrightarrow> (n, x) = (k, v) \<or> (n, x) \<in> set al"
  by (induction al) (auto split: if_splits)

lemma headerStep_lookup:
  assumes "(k, v) \<in> set md"
    and "\<forall>(k', v') \<in> set md. headerKey k' = headerKey k \<longrightarrow> v' = v"
  shows "map_of (foldl headerStep acc md) (headerKey k) = Some v"
  using assms
proof (induction md rule: rev_induct)
  case Nil
  then show ?case by simp
next
  case (snoc p md)
  obtain k' v' where p: "p = (k', v')" by (cases p)
  show ?case
  proof (cases "headerKey k' = headerKey k")
    case True
    with snoc.prems(2) have "v' = v" by (simp add: p)
    with True show ?thesis by (simp add: p AList.update_conv')
  next
    case False
    with snoc.prems(1) have "(k, v) \<in> set md" by (auto simp: p)
    moreover from snoc.prems(2) have "\<forall>(k', v') \<in> set md. headerKey k' = headerKey k \<longrightarrow> v' = v"
      by simp
    ultimately have "map_of (foldl headerStep acc md) (headerKey k) = Some v"
      by (rule snoc.IH)
    with False show ?thesis by (simp add: p AList.update_conv')
  qed
qed

lemma headerStep_entries:
  "(n, x) \<in> set (foldl headerStep acc md) \<Longrightarrow>
     (n, x) \<in> set acc \<or> (\<exists>(k', v') \<in> set md. n = headerKey k' \<and> x = v')"
proof (induction md arbitrary: n x rule: rev_induct)
  case Nil
  then show ?case by simp
next
  case (snoc p md)
  obtain k' v' where p: "p = (k', v')" by (cases p)
  from snoc.prems have "(n, x) \<in> set (AList.update (headerKey k') v' (foldl headerStep acc md))"
    by (simp add: p)
  then have "(n, x) = (headerKey k', v') \<or> (n, x) \<in> set (foldl headerStep acc md)"
    by (rule update_entries)
  then show ?case
  proof
    assume "(n, x) = (headerKey k', v')"
    then show ?thesis by (auto simp: p)
  next
    assume "(n, x) \<in> set (foldl headerStep acc md)"
    from snoc.IH [OF this] show ?thesis by auto
  qed
qed

lemma objectSet_lookup:
  "map_of (objectSet k' x obj) K = (if k' = K \<and> K \<noteq> ''__proto__'' then Some x else map_of obj K)"
  by (auto simp: objectSet_def AList.update_conv')

lemma meta_split: "startsWith s ''x-amz-meta-'' \<Longrightarrow> s = ''x-amz-meta-'' @ drop 11 s"
proof -
  assume "startsWith s ''x-amz-meta-''"
  then have "take 11 s = ''x-amz-meta-''"
    by (simp add: startsWith_def eval_nat_numeral)
  then show ?thesis
    by (metis append_take_drop_id)
qed

lemma metadataStep_lookup:
  assumes "K \<noteq> ''__proto__''"
    and "(n, v) \<in> set hs" and "toLowerCase n = ''x-amz-meta-'' @ K"
    and "\<forall>(n', x) \<in> set hs. toLowerCase n' = ''x-amz-meta-'' @ K \<longrightarrow> x = v"
  shows "map_of (foldl metadataStep acc hs) K = Some v"
  using assms(2,4)
proof (induction hs rule: rev_induct)
  case Nil
  then show ?case by simp
next
  case (snoc h hs)
  obtain n' x where h: "h = (n', x)" by (cases h)
  from snoc.prems(2) have all: "\<forall>(n', x) \<in> set hs. toLowerCase n' = ''x-amz-meta-'' @ K \<longrightarrow> x = v"
    by simp
  have nK: "startsWith (toLowerCase n) ''x-amz-meta-''" "drop 11 (toLowerCase n) = K"
    by (simp_all add: assms(3) startsWith_def)
  show ?case
  proof (cases "startsWith (toLowerCase n') ''x-amz-meta-''")
    case True
    note step = metadataStep_meta [OF True]
    show ?thesis
    proof (cases "drop 11 (toLowerCase n') = K")
      case same: True
      have "toLowerCase n' = ''x-amz-meta-'' @ drop 11 (toLowerCase n')"
        by (rule meta_split [OF True])
      then have "toLowerCase n' = ''x-amz-meta-'' @ K"
        by (simp only: same)
      with snoc.prems(2) have "x = v" by (simp add: h)
      with same assms(1) show ?thesis
        by (simp only: h foldl_append foldl_Cons foldl_Nil step objectSet_lookup) simp
    next
      case other: False
      with nK(2) have "(n, v) \<noteq> (n', x)" by auto
      with snoc.prems(1) have "(n, v) \<in> set hs" by (auto simp: h)
      from snoc.IH [OF this all] other show ?thesis
        by (simp only: h foldl_append foldl_Cons foldl_Nil step objectSet_lookup) simp
    qed
  next
    case False
    with nK(1) have "(n, v) \<noteq> (n', x)" by auto
    with snoc.prems(1) have "(n, v) \<in> set hs" by (auto simp: h)
    from snoc.IH [OF this all] show ?thesis
      by (simp only: h foldl_append foldl_Cons foldl_Nil metadataStep_other [OF False])
  qed
qed


lemma toLowerCase_append: "toLowerCase (a @ b) = toLowerCase a @ toLowerCase b"
  by (simp add: toLowerCase_def)

lemma toLowerCase_prefix: "toLowerCase ''x-amz-meta-'' = ''x-amz-meta-''"
  by code_simp

lemma toLowerCase_contentType: "toLowerCase ''Content-Type'' = ''content-type''"
  by code_simp

lemma describeObject_metadata:
  "obj_metadata (describeObject key r) =
     (if extractMetadata (resp_headers r) = [] then None
      else Some (extractMetadata (resp_headers r)))"
  by (simp add: describeObject_def Let_def)

text \<open>
  C8, as the code has it. An entry of the metadata supplied to \<^verbatim>\<open>uploadFile\<close> or to
  \<^verbatim>\<open>presignedUploadUrl\<close> whose key does not start with \<open>x-amz-meta-\<close> is handed to
  the signer as the header \<open>x-amz-meta-\<close> followed by the key, with its value, provided
  no entry of the mapping yields the same header name up to letter case with another
  value. When the response to \<^verbatim>\<open>getObject\<close> then returns the metadata headers under
  names equal up to letter case, the descriptor's metadata holds the value under the
  lowercased key, which is the key itself for a lowercase key such as \<open>owner\<close>, unless
  that key is \<open>__proto__\<close>.
\<close>

theorem metadata_roundtrip:
  assumes sent:
      "(up_metadata uo = Some md \<and> sq_headers (uploadFileSignRequest b key f uo) = Some sent)
       \<or> (opt_metadata po = Some md \<and> sq_headers (uploadSignRequest b po) = Some sent)"
    and entry: "(k, v) \<in> set md"
    and unprefixed: "\<not> startsWith k ''x-amz-meta-''"
    and single: "\<forall>(k', v') \<in> set md.
                   toLowerCase (headerKey k') = toLowerCase (headerKey k) \<longrightarrow> v' = v"
    and proto: "toLowerCase k \<noteq> ''__proto__''"
    and got: "snd (getObject fetch b' key') = Inr d"
    and echo: "echoes sent (resp_headers (obj_body d))"
  shows "map_of sent (''x-amz-meta-'' @ k) = Some v
         \<and> (\<exists>m. obj_metadata d = Some m \<and> map_of m (toLowerCase k) = Some v)"
proof -
  let ?hs = "resp_headers (obj_body d)"
  have hk: "headerKey k = ''x-amz-meta-'' @ k"
    using unprefixed by (simp add: headerKey_def)
  have low: "toLowerCase (headerKey k) = ''x-amz-meta-'' @ toLowerCase k"
    by (simp only: hk toLowerCase_append toLowerCase_prefix)
  from sent obtain ct where s: "sent = foldl headerStep [(''Content-Type'', ct)] md"
    by (auto simp: uploadFileSignRequest_def uploadSignRequest_def buildHeaders_def)
  from single have single': "\<forall>(k', v') \<in> set md. headerKey k' = headerKey k \<longrightarrow> v' = v"
    by auto
  have A: "map_of sent (headerKey k) = Some v"
    unfolding s by (rule headerStep_lookup [OF entry single'])
  then have mem: "(headerKey k, v) \<in> set sent"
    by (rule map_of_SomeD)
  have "startsWith (headerKey k) ''x-amz-meta-''"
    by (simp add: hk startsWith_def)
  with echo mem obtain n where n: "(n, v) \<in> set ?hs" "toLowerCase n = toLowerCase (headerKey k)"
    unfolding echoes_def by fastforce
  have uniq: "\<forall>(n', x) \<in> set ?hs. toLowerCase n' = ''x-amz-meta-'' @ toLowerCase k \<longrightarrow> x = v"
  proof (clarify)
    fix n' x
    assume in_hs: "(n', x) \<in> set ?hs" and eq: "toLowerCase n' = ''x-amz-meta-'' @ toLowerCase k"
    from eq have "startsWith (toLowerCase n') ''x-amz-meta-''"
      by (simp add: startsWith_def)
    with echo in_hs obtain n0 where n0: "(n0, x) \<in> set sent" "toLowerCase n' = toLowerCase n0"
      unfolding echoes_def by fastforce
    from n0(1) have "(n0, x) \<in> set [(''Content-Type'', ct)]
        \<or> (\<exists>(k', v') \<in> set md. n0 = headerKey k' \<and> x = v')"
      unfolding s by (rule headerStep_entries)
    then show "x = v"
    proof
      assume "(n0, x) \<in> set [(''Content-Type'', ct)]"
      then have "toLowerCase n0 = ''content-type''"
        by (simp add: toLowerCase_contentType)
      with n0(2) eq show ?thesis by simp
    next
      assume "\<exists>(k', v') \<in> set md. n0 = headerKey k' \<and> x = v'"
      then obtain k' where k': "(k', x) \<in> set md" "n0 = headerKey k'"
        by auto
      from k'(2) n0(2) eq low have "toLowerCase (headerKey k') = toLowerCase (headerKey k)"
        by simp
      with single k'(1) show ?thesis by auto
    qed
  qed
  from n(2) low have n_low: "toLowerCase n = ''x-amz-meta-'' @ toLowerCase k"
    by simp
  have B: "map_of (extractMetadata ?hs) (toLowerCase k) = Some v"
    unfolding extractMetadata_def by (rule metadataStep_lookup [OF proto n(1) n_low uniq])
  then have ne: "extractMetadata ?hs \<noteq> []"
    by auto
  from getObject_Inr [OF got] have "d = describeObject key' (obj_body d)" ..
  then have "obj_metadata d = obj_metadata (describeObject key' (obj_body d))"
    by simp
  with ne have "obj_metadata d = Some (extractMetadata ?hs)"
    by (simp only: describeObject_metadata if_False)
  with A B hk show ?thesis by simp
qed

theorem metadata_roundtrip_witness:
  "map_of [(''Content-Type'', ''text/plain''), (''x-amz-meta-owner'', ''alice'')]
       ''x-amz-meta-owner'' = Some ''alice''
   \<and> (\<exists>m. obj_metadata (describeObject ''a.txt''
              \<lparr>status = 200, statusText = ''OK'',
               resp_headers = [(''content-type'', ''text/plain''), (''X-Amz-Meta-Owner'', ''alice'')],
               resp_text = Inr []\<rparr>) = Some m
          \<and> map_of m ''owner'' = Some ''alice'')"
proof -
  define b where "b = \<lparr>bucket_name = ''gallery'',
           awsClient = (\<lambda>rq. Inr \<lparr>signed_url = sq_url rq, signed_headers = []\<rparr>),
           baseUrl = ''https://acct.r2.cloudflarestorage.com''\<rparr>"
  define md where "md = [(''owner'', ''alice'')]"
  define uo where "uo = \<lparr>up_contentType = ''text/plain'', up_metadata = Some md\<rparr>"
  define po where "po = \<lparr>opt_key = ''a.txt'', opt_contentType = ''text/plain'',
      opt_metadata = Some md, opt_expiresIn = None, opt_maxFileSize = None,
      opt_allowedContentTypes = None\<rparr>"
  define sent where "sent = [(''Content-Type'', ''text/plain''), (''x-amz-meta-owner'', ''alice'')]"
  define hs where "hs = [(''content-type'', ''text/plain''), (''X-Amz-Meta-Owner'', ''alice'')]"
  define r where "r = \<lparr>status = 200, statusText = ''OK'', resp_headers = hs, resp_text = Inr []\<rparr>"
  define d where "d = describeObject ''a.txt'' r"
  have bh: "buildHeaders ''text/plain'' md = sent"
    unfolding md_def sent_def by code_simp
  then have a1: "(up_metadata uo = Some md
        \<and> sq_headers (uploadFileSignRequest b ''a.txt'' (StringFile ''hi'') uo) = Some sent)
       \<or> (opt_metadata po = Some md \<and> sq_headers (uploadSignRequest b po) = Some sent)"
    by (simp add: uo_def uploadFileSignRequest_def)
  have a2: "(''owner'', ''alice'') \<in> set md"
    by (simp add: md_def)
  have a3: "\<not> startsWith ''owner'' ''x-amz-meta-''"
    by (simp add: startsWith_def)
  have a4: "\<forall>(k', v') \<in> set md.
              toLowerCase (headerKey k') = toLowerCase (headerKey ''owner'') \<longrightarrow> v' = ''alice''"
    by (simp add: md_def)
  have lo: "toLowerCase ''owner'' = ''owner''"
    by code_simp
  then have a5: "toLowerCase ''owner'' \<noteq> ''__proto__''"
    by simp
  have a6: "snd (getObject (\<lambda>fq. Inr r) b ''a.txt'') = Inr d"
    by (simp add: getObject_def Let_def ok_def b_def r_def d_def)
  have "echoes sent hs"
    unfolding sent_def hs_def by code_simp
  then have a7: "echoes sent (resp_headers (obj_body d))"
    by (simp add: d_def describeObject_body r_def)
  from metadata_roundtrip [OF a1 a2 a3 a4 a5 a6 a7]
  have "map_of sent (''x-amz-meta-'' @ ''owner'') = Some ''alice''
        \<and> (\<exists>m. obj_metadata d = Some m \<and> map_of m ''owner'' = Some ''alice'')"
    by (simp only: lo)
  then show ?thesis
    unfolding sent_def d_def r_def hs_def by simp
qed

theorem metadata_collision_counterexample:
  "map_of (buildHeaders ''text/plain'' [(''owner'', ''alice''), (''x-amz-meta-owner'', ''bob'')])
       ''x-amz-meta-owner'' = Some ''bob''
   \<and> map_of (extractMetadata
              (buildHeaders ''text/plain'' [(''owner'', ''alice''), (''x-amz-meta-owner'', ''bob'')]))
       ''owner'' = Some ''bob''
   \<and> map_of (extractMetadata
              (buildHeaders ''text/plain'' [(''owner'', ''alice''), (''x-amz-meta-owner'', ''bob'')]))
       ''owner'' \<noteq> Some ''alice''"
  by code_simp

end
